theory Spec2Isabelle
  imports Main "HOL-Library.AList"
begin

section \<open>Parsed JSON values and Python dictionaries\<close>

text \<open>
  The document file \<^verbatim>\<open>PMT.json\<close> is read with \<^verbatim>\<open>json.load\<close>; the value it returns is
  modelled by the datatype below. A Python \<^verbatim>\<open>dict\<close> keeps its keys in insertion order,
  so it is an association list: assigning to a key that is present replaces the value
  in place, assigning to a new key appends (\<open>AList.update\<close>), and \<^verbatim>\<open>pop\<close>/\<^verbatim>\<open>del\<close> remove
  the key (\<open>AList.delete\<close>). Numbers are never inspected by the modelled code.
\<close>

datatype json =
    JNull
  | JBool bool
  | JNum int
  | JStr string
  | JList "json list"
  | JDict "(string \<times> json) list"

type_synonym pydict = "(string \<times> json) list"

text \<open>A Python \<^verbatim>\<open>dict\<close> cannot hold a key twice; \<open>wf_json\<close> says so for every level.\<close>

fun wf_json :: "json \<Rightarrow> bool" where
  "wf_json (JList xs) = (\<forall>x \<in> set xs. wf_json x)"
| "wf_json (JDict d) = (distinct (map fst d) \<and> (\<forall>p \<in> set d. wf_json (snd p)))"
| "wf_json _ = True"

definition has_key :: "pydict \<Rightarrow> string \<Rightarrow> bool" where
  "has_key d k = (k \<in> set (map fst d))"

text \<open>\<^verbatim>\<open>s.replace(" ", "")\<close>: only the space character U+0020 is removed.\<close>

definition remove_spaces :: "string \<Rightarrow> string" where
  "remove_spaces s = filter (\<lambda>c. c \<noteq> CHR '' '') s"

text \<open>\<^verbatim>\<open>pat in s\<close> for two strings: \<open>pat\<close> occurs in \<open>s\<close> as a contiguous block.\<close>

fun starts_with :: "string \<Rightarrow> string \<Rightarrow> bool" where
  "starts_with [] s = True"
| "starts_with (p # ps) [] = False"
| "starts_with (p # ps) (c # cs) = (p = c \<and> starts_with ps cs)"

fun str_contains :: "string \<Rightarrow> string \<Rightarrow> bool" where
  "str_contains pat [] = (pat = [])"
| "str_contains pat (c # cs) = (starts_with pat (c # cs) \<or> str_contains pat cs)"

section \<open>Schema migration: \<^verbatim>\<open>load_assets_from_json\<close>\<close>

text \<open>
  Line 349: a bare string \<open>a\<close> in an asset list is replaced by
  \<^verbatim>\<open>{"display_name": a, "db_name": a.replace(" ", "")}\<close>; anything else is left alone.
\<close>

fun migrate_asset :: "json \<Rightarrow> json" where
  "migrate_asset (JStr a) =
     JDict [(''display_name'', JStr a), (''db_name'', JStr (remove_spaces a))]"
| "migrate_asset a = a"

text \<open>
  Lines 347-349, \<^verbatim>\<open>for i, a in enumerate(asset_list): if isinstance(a, str): asset_list[i] = ...\<close>.
  \<open>None\<close> is a raised exception. On a list the loop rewrites the strings in place. On a
  non-empty dict it iterates the keys, which are strings, stores under the integer key
  \<open>0\<close> and so fails with \<^verbatim>\<open>RuntimeError\<close> (size changed during iteration); on a non-empty
  string the item assignment is a \<^verbatim>\<open>TypeError\<close>; a number, boolean or null is not iterable.
  The empty dict and the empty string are iterated zero times.
\<close>

fun migrate_asset_list :: "json \<Rightarrow> json option" where
  "migrate_asset_list (JList xs) = Some (JList (map migrate_asset xs))"
| "migrate_asset_list (JDict d) = (if d = [] then Some (JDict []) else None)"
| "migrate_asset_list (JStr s) = (if s = [] then Some (JStr []) else None)"
| "migrate_asset_list JNull = None"
| "migrate_asset_list (JBool b) = None"
| "migrate_asset_list (JNum n) = None"

text \<open>
  Lines 343-346: a category value that is a dict with the key \<^verbatim>\<open>assets\<close> has its inner
  value migrated in place; the wrapping dict itself stays where it is.
\<close>

definition migrate_category :: "json \<Rightarrow> json option" where
  "migrate_category assets =
     (case assets of
        JDict d \<Rightarrow>
          (case map_of d ''assets'' of
             Some asset_list \<Rightarrow>
               map_option (\<lambda>l. JDict (AList.update ''assets'' l d)) (migrate_asset_list asset_list)
           | None \<Rightarrow> migrate_asset_list assets)
      | _ \<Rightarrow> migrate_asset_list assets)"

definition migrate_categories :: "pydict \<Rightarrow> pydict option" where
  "migrate_categories categories =
     those (map (\<lambda>(cat, assets). map_option (Pair cat) (migrate_category assets)) categories)"

text \<open>
  Lines 340-341 and 351-352: \<^verbatim>\<open>d["Static Meshes"] = d.pop("Meshes")\<close> when \<^verbatim>\<open>"Meshes" in d\<close>.
\<close>

definition rename_meshes :: "pydict \<Rightarrow> pydict" where
  "rename_meshes d =
     (case map_of d ''Meshes'' of
        Some v \<Rightarrow> AList.update ''Static Meshes'' v (AList.delete ''Meshes'' d)
      | None \<Rightarrow> d)"

text \<open>
  A project value that is not a dict raises: on a list or a string \<^verbatim>\<open>"Meshes" in categories\<close>
  is evaluated, but then either \<^verbatim>\<open>pop("Meshes")\<close> or \<^verbatim>\<open>items()\<close> fails; on a number, boolean
  or null the membership test itself is a \<^verbatim>\<open>TypeError\<close>.
\<close>

definition migrate_project :: "json \<Rightarrow> json option" where
  "migrate_project categories =
     (case categories of
        JDict d \<Rightarrow> map_option JDict (migrate_categories (rename_meshes d))
      | _ \<Rightarrow> None)"

definition migrate_projects :: "pydict \<Rightarrow> pydict option" where
  "migrate_projects data =
     those (map (\<lambda>(project, categories).
                   if project = ''naming_conventions'' then Some (project, categories)
                   else map_option (Pair project) (migrate_project categories)) data)"

text \<open>
  Lines 351-352. \<^verbatim>\<open>"Meshes" in data["naming_conventions"]\<close> is a key test on a dict, an
  element test on a list and a substring test on a string; when it holds on a list or
  a string the following \<^verbatim>\<open>pop("Meshes")\<close> raises. On a number, boolean or null the test
  raises.
\<close>

definition migrate_conventions :: "pydict \<Rightarrow> pydict option" where
  "migrate_conventions data =
     (case map_of data ''naming_conventions'' of
        None \<Rightarrow> Some data
      | Some nc \<Rightarrow>
          (case nc of
             JDict d \<Rightarrow>
               Some (if has_key d ''Meshes''
                     then AList.update ''naming_conventions'' (JDict (rename_meshes d)) data
                     else data)
           | JList xs \<Rightarrow> if JStr ''Meshes'' \<in> set xs then None else Some data
           | JStr s \<Rightarrow> if str_contains ''Meshes'' s then None else Some data
           | _ \<Rightarrow> None))"

text \<open>The body of the \<^verbatim>\<open>try\<close> block after \<^verbatim>\<open>json.load\<close>; \<open>None\<close> is any exception.\<close>

definition migrate :: "json \<Rightarrow> pydict option" where
  "migrate data =
     (case data of
        JDict d \<Rightarrow>
          (case migrate_projects d of
             None \<Rightarrow> None
           | Some d' \<Rightarrow> migrate_conventions d')
      | _ \<Rightarrow> None)"

text \<open>
  Messages shown with \<^verbatim>\<open>QMessageBox\<close>, one constructor per call site of the source.
\<close>

datatype msg =
    Warn_could_not_load            \<comment> \<open>line 355\<close>
  | Warn_could_not_save            \<comment> \<open>line 367\<close>
  | Warn_reserved_name             \<comment> \<open>line 266\<close>
  | Warn_project_exists            \<comment> \<open>line 281\<close>
  | Warn_enter_project_name        \<comment> \<open>line 283\<close>
  | Warn_select_project_rename     \<comment> \<open>line 289\<close>
  | Warn_cannot_rename             \<comment> \<open>line 294\<close>
  | Warn_name_empty                \<comment> \<open>line 304\<close>
  | Warn_exists_or_reserved        \<comment> \<open>line 308\<close>
  | Warn_rename_project_folder     \<comment> \<open>line 324\<close>
  | Info_project_renamed           \<comment> \<open>line 327\<close>
  | Warn_select_project_enter      \<comment> \<open>line 373\<close>
  | Warn_select_project_delete     \<comment> \<open>line 383\<close>
  | Warn_cannot_delete             \<comment> \<open>line 387\<close>
  | Info_project_deleted           \<comment> \<open>line 397\<close>
  | Warn_duplicate                 \<comment> \<open>lines 482 and 528\<close>
  | Info_asset_created             \<comment> \<open>line 494\<close>
  | Warn_asset_not_found           \<comment> \<open>line 504\<close>
  | Warn_rename_file               \<comment> \<open>line 553\<close>
  | Warn_rename_asset_folder       \<comment> \<open>line 572\<close>
  | Info_asset_renamed             \<comment> \<open>line 579\<close>
  | Info_asset_deleted             \<comment> \<open>line 598\<close>
  | Warn_asset_not_in_list         \<comment> \<open>line 601\<close>
  | Warn_no_houdini                \<comment> \<open>line 707\<close>

text \<open>
  \<^verbatim>\<open>load_assets_from_json\<close>. The argument is what \<^verbatim>\<open>open\<close> and \<^verbatim>\<open>json.load\<close> deliver: \<open>None\<close>
  when either raises (missing or malformed file). Every exception ends in the warning
  and the empty dict.
\<close>

definition load_assets_from_json :: "json option \<Rightarrow> msg list \<times> pydict" where
  "load_assets_from_json file =
     (case file of
        None \<Rightarrow> ([Warn_could_not_load], [])
      | Some data \<Rightarrow>
          (case migrate data of
             None \<Rightarrow> ([Warn_could_not_load], [])
           | Some data' \<Rightarrow> ([], data')))"

text \<open>The migration as a function of the parsed document.\<close>

definition normalize :: "json \<Rightarrow> json" where
  "normalize raw = JDict (snd (load_assets_from_json (Some raw)))"

text \<open>
  The canonical shape of the document: every project is a dict of categories, none of
  them called \<^verbatim>\<open>Meshes\<close>, every category value is a bare list, every asset is an object
  with string \<^verbatim>\<open>display_name\<close> and \<^verbatim>\<open>db_name\<close>, and \<^verbatim>\<open>naming_conventions\<close>, when present, is a
  dict without the key \<^verbatim>\<open>Meshes\<close>.
\<close>

definition is_str :: "json \<Rightarrow> bool" where
  "is_str v = (case v of JStr s \<Rightarrow> True | _ \<Rightarrow> False)"

definition is_asset :: "json \<Rightarrow> bool" where
  "is_asset a =
     (case a of
        JDict d \<Rightarrow>
          (case map_of d ''display_name'' of Some n \<Rightarrow> is_str n | None \<Rightarrow> False)
          \<and> (case map_of d ''db_name'' of Some i \<Rightarrow> is_str i | None \<Rightarrow> False)
      | _ \<Rightarrow> False)"

definition canonical_category :: "json \<Rightarrow> bool" where
  "canonical_category v = (case v of JList xs \<Rightarrow> list_all is_asset xs | _ \<Rightarrow> False)"

definition canonical_project :: "json \<Rightarrow> bool" where
  "canonical_project v =
     (case v of
        JDict cs \<Rightarrow> \<not> has_key cs ''Meshes'' \<and> list_all (\<lambda>p. canonical_category (snd p)) cs
      | _ \<Rightarrow> False)"

definition canonical_conventions :: "json \<Rightarrow> bool" where
  "canonical_conventions v = (case v of JDict d \<Rightarrow> \<not> has_key d ''Meshes'' | _ \<Rightarrow> False)"

definition canonical :: "json \<Rightarrow> bool" where
  "canonical x =
     (case x of
        JDict d \<Rightarrow>
          list_all (\<lambda>p. if fst p = ''naming_conventions'' then canonical_conventions (snd p)
                        else canonical_project (snd p)) d
      | _ \<Rightarrow> False)"

section \<open>The in-memory document and the state of \<^verbatim>\<open>ProjectManagerUI\<close>\<close>

text \<open>
  An exception that nothing catches leaves the slot; \<open>Inl\<close> of it is the result of the
  operation and there is no successor state.
\<close>

datatype exn = KeyError | TypeError | AttributeError | ValueError | OSError

text \<open>
  The directory tree under \<^verbatim>\<open>tempfile.gettempdir()/PMT_Projects\<close>. A directory is the list
  of its entries in the order \<^verbatim>\<open>os.listdir\<close> reports them. Names are single path
  components: a name containing a separator, or an empty or dotted name, would be
  resolved by \<^verbatim>\<open>os.path.join\<close> to another place and is outside this model.
  \<^verbatim>\<open>HoudiniConnection.project_path\<close> (\<^verbatim>\<open>%LOCALAPPDATA%/Temp/PMT_Projects\<close>) is taken to be
  the same directory, as it is with the default Windows environment.
\<close>

datatype fsnode = File | Dir "(string \<times> fsnode) list"

type_synonym fsdir = "(string \<times> fsnode) list"
type_synonym path = "string list"

record state =
  assets_hierarchy :: pydict
  naming_conventions :: json
  projects :: "string list"
  selected_project :: "string option"
  selected_category :: "string option"
  config_json :: "json option"    \<comment> \<open>the parsed content of \<^verbatim>\<open>PMT.json\<close>, \<open>None\<close> when unreadable\<close>
  root_dir :: fsdir
  hou_version :: bool             \<comment> \<open>\<^verbatim>\<open>self.HC.hou_version is not None\<close>\<close>

definition Master_Assets :: string where
  "Master_Assets = ''Master Assets''"

text \<open>
  \<^verbatim>\<open>str.strip()\<close>. Characters are taken as code points below 256; the ones Python counts
  as whitespace there are 9-13, 28-32, 133 and 160.
\<close>

definition is_py_space :: "char \<Rightarrow> bool" where
  "is_py_space c = ((of_char c :: nat) \<in> {9, 10, 11, 12, 13, 28, 29, 30, 31, 32, 133, 160})"

definition strip :: "string \<Rightarrow> string" where
  "strip s = rev (dropWhile is_py_space (rev (dropWhile is_py_space s)))"

text \<open>
  \<^verbatim>\<open>a == b\<close> on parsed JSON: dicts compare without regard to key order, and \<^verbatim>\<open>True == 1\<close>,
  \<^verbatim>\<open>False == 0\<close>.
\<close>

fun py_eq :: "json \<Rightarrow> json \<Rightarrow> bool" where
  "py_eq JNull b = (b = JNull)"
| "py_eq (JBool x) b =
     (case b of JBool y \<Rightarrow> x = y | JNum n \<Rightarrow> n = (if x then 1 else 0) | _ \<Rightarrow> False)"
| "py_eq (JNum m) b =
     (case b of JNum n \<Rightarrow> m = n | JBool y \<Rightarrow> m = (if y then 1 else 0) | _ \<Rightarrow> False)"
| "py_eq (JStr s) b = (b = JStr s)"
| "py_eq (JList xs) b = (case b of JList ys \<Rightarrow> list_all2 py_eq xs ys | _ \<Rightarrow> False)"
| "py_eq (JDict d) b =
     (case b of
        JDict e \<Rightarrow>
          length d = length e \<and>
          (\<forall>p \<in> set d. case map_of e (fst p) of None \<Rightarrow> False | Some w \<Rightarrow> py_eq (snd p) w)
      | _ \<Rightarrow> False)"

text \<open>
  \<^verbatim>\<open>x[key]\<close> with a string key: a dict looks the key up (\<^verbatim>\<open>KeyError\<close> when absent), a list or
  a string wants an integer index, anything else is not subscriptable.
\<close>

definition subscript :: "json \<Rightarrow> string \<Rightarrow> exn + json" where
  "subscript x key =
     (case x of
        JDict d \<Rightarrow> (case map_of d key of None \<Rightarrow> Inl KeyError | Some v \<Rightarrow> Inr v)
      | _ \<Rightarrow> Inl TypeError)"

text \<open>
  \<^verbatim>\<open>for a in x\<close>: the elements of a list; the keys of a dict and the characters of a string,
  both as strings; \<^verbatim>\<open>TypeError\<close> on anything else.
\<close>

definition iterate :: "json \<Rightarrow> exn + json list" where
  "iterate x =
     (case x of
        JList xs \<Rightarrow> Inr xs
      | JDict d \<Rightarrow> Inr (map (\<lambda>p. JStr (fst p)) d)
      | JStr s \<Rightarrow> Inr (map (\<lambda>c. JStr [c]) s)
      | _ \<Rightarrow> Inl TypeError)"

text \<open>
  \<^verbatim>\<open>get_assets\<close>, lines 243-248. The selected project and category are \<^verbatim>\<open>None\<close> until the user
  has entered a project and a category; \<^verbatim>\<open>None\<close> is not a key of any dict.
\<close>

definition unwrap :: "json \<Rightarrow> json" where
  "unwrap cat_val =
     (case cat_val of
        JDict d \<Rightarrow> (case map_of d ''assets'' of Some inner \<Rightarrow> inner | None \<Rightarrow> cat_val)
      | _ \<Rightarrow> cat_val)"

definition get_assets :: "pydict \<Rightarrow> string option \<Rightarrow> string option \<Rightarrow> exn + json" where
  "get_assets h project category =
     (case project of
        None \<Rightarrow> Inl KeyError
      | Some p \<Rightarrow>
          (case map_of h p of
             None \<Rightarrow> Inl KeyError
           | Some cats \<Rightarrow>
               (case category of
                  None \<Rightarrow> (case cats of JDict cs \<Rightarrow> Inl KeyError | _ \<Rightarrow> Inl TypeError)
                | Some c \<Rightarrow>
                    (case subscript cats c of Inl e \<Rightarrow> Inl e | Inr cat_val \<Rightarrow> Inr (unwrap cat_val)))))"

text \<open>
  The list object that \<^verbatim>\<open>get_assets\<close> returned is part of the hierarchy, so \<^verbatim>\<open>append\<close>,
  \<^verbatim>\<open>remove\<close> and item assignment on it change the hierarchy in place: \<open>put_assets\<close> stores
  the new content where \<^verbatim>\<open>get_assets\<close> found the list, under the wrapper's \<^verbatim>\<open>assets\<close> key
  or as the category value itself.
\<close>

definition put_category :: "json \<Rightarrow> json list \<Rightarrow> json" where
  "put_category cat_val xs =
     (case cat_val of
        JDict d \<Rightarrow>
          (if has_key d ''assets'' then JDict (AList.update ''assets'' (JList xs) d)
           else JList xs)
      | _ \<Rightarrow> JList xs)"

definition put_assets :: "pydict \<Rightarrow> string \<Rightarrow> string \<Rightarrow> json list \<Rightarrow> pydict" where
  "put_assets h p c xs =
     (case map_of h p of
        Some (JDict cs) \<Rightarrow>
          (case map_of cs c of
             Some cat_val \<Rightarrow> AList.update p (JDict (AList.update c (put_category cat_val xs) cs)) h
           | None \<Rightarrow> h)
      | _ \<Rightarrow> h)"

text \<open>
  \<^verbatim>\<open>find_asset_by_display_name\<close>, lines 254-259: the index of the first element whose
  \<^verbatim>\<open>display_name\<close> equals the given string; elements before it are subscripted too.
\<close>

fun find_asset_by_display_name :: "json list \<Rightarrow> string \<Rightarrow> exn + nat option" where
  "find_asset_by_display_name [] display_name = Inr None"
| "find_asset_by_display_name (a # as) display_name =
     (case subscript a ''display_name'' of
        Inl e \<Rightarrow> Inl e
      | Inr v \<Rightarrow>
          if v = JStr display_name then Inr (Some 0)
          else (case find_asset_by_display_name as display_name of
                  Inl e \<Rightarrow> Inl e
                | Inr None \<Rightarrow> Inr None
                | Inr (Some i) \<Rightarrow> Inr (Some (Suc i))))"

text \<open>
  \<^verbatim>\<open>any(a["db_name"] == db_name for a in assets)\<close>, lines 481 and 527: evaluated from the
  left, stopping at the first hit.
\<close>

fun any_db_name :: "json list \<Rightarrow> string \<Rightarrow> exn + bool" where
  "any_db_name [] db_name = Inr False"
| "any_db_name (a # as) db_name =
     (case subscript a ''db_name'' of
        Inl e \<Rightarrow> Inl e
      | Inr v \<Rightarrow> if v = JStr db_name then Inr True else any_db_name as db_name)"

text \<open>
  \<^verbatim>\<open>get_display_names\<close>, line 252, followed by \<^verbatim>\<open>HierarchyWindow\<close>, which builds a \<^verbatim>\<open>QLabel\<close> from
  each name (line 135) and so needs every name to be a string.
\<close>

fun get_display_names :: "json list \<Rightarrow> exn + string list" where
  "get_display_names [] = Inr []"
| "get_display_names (a # as) =
     (case subscript a ''display_name'' of
        Inl e \<Rightarrow> Inl e
      | Inr (JStr n) \<Rightarrow>
          (case get_display_names as of Inl e \<Rightarrow> Inl e | Inr ns \<Rightarrow> Inr (n # ns))
      | Inr _ \<Rightarrow> Inl TypeError)"

section \<open>The directory tree\<close>

text \<open>
  \<^verbatim>\<open>os.makedirs(path, exist_ok=True)\<close> for a path below the root: missing directories are
  created, existing ones are entered, and a file in the way is an \<^verbatim>\<open>OSError\<close> (\<open>None\<close>),
  raised before anything has been created. Every name of the path is taken as one
  directory entry. This is what \<^verbatim>\<open>os.path.join\<close> and \<^verbatim>\<open>os.makedirs\<close> do with a plain name
  (\<open>plain_name\<close> below: not empty, not \<^verbatim>\<open>.\<close> or \<^verbatim>\<open>..\<close>, no separator); an empty or dotted
  name or one with a separator names another place, and what is proved of the tree for
  all documents is stated for documents with plain names. The file system is taken to
  accept every plain name as the name of an entry and to tell names apart by case.
\<close>

fun makedirs :: "path \<Rightarrow> fsdir \<Rightarrow> fsdir option" where
  "makedirs [] d = Some d"
| "makedirs (n # ns) d =
     (case map_of d n of
        None \<Rightarrow> map_option (\<lambda>sub. d @ [(n, Dir sub)]) (makedirs ns [])
      | Some File \<Rightarrow> None
      | Some (Dir sub) \<Rightarrow> map_option (\<lambda>sub'. AList.update n (Dir sub') d) (makedirs ns sub))"

text \<open>\<^verbatim>\<open>os.path.exists\<close>, and the node found at a path.\<close>

fun lookup_path :: "path \<Rightarrow> fsdir \<Rightarrow> fsnode option" where
  "lookup_path [] d = Some (Dir d)"
| "lookup_path [n] d = map_of d n"
| "lookup_path (n # ns) d =
     (case map_of d n of Some (Dir sub) \<Rightarrow> lookup_path ns sub | _ \<Rightarrow> None)"

definition path_exists :: "path \<Rightarrow> fsdir \<Rightarrow> bool" where
  "path_exists p d = (lookup_path p d \<noteq> None)"

text \<open>
  \<^verbatim>\<open>os.rename\<close> of the entry \<open>old\<close> to \<open>new\<close> inside one directory, on Windows: it fails
  when the source is missing or the destination exists already; renaming an entry to
  its own name changes nothing. The flag \<open>os_ok\<close> is the operating system's verdict for
  every other reason to fail (a file held open, missing permission).
\<close>

definition rename_entry :: "bool \<Rightarrow> string \<Rightarrow> string \<Rightarrow> fsdir \<Rightarrow> fsdir option" where
  "rename_entry os_ok old new d =
     (if \<not> os_ok \<or> map_of d old = None then None
      else if old = new then Some d
      else if map_of d new \<noteq> None then None
      else Some (map (\<lambda>(k, v). if k = old then (new, v) else (k, v)) d))"

text \<open>A change applied to the directory at a path; \<open>None\<close> when the path is not a directory.\<close>

fun modify_dir :: "path \<Rightarrow> (fsdir \<Rightarrow> fsdir option) \<Rightarrow> fsdir \<Rightarrow> fsdir option" where
  "modify_dir [] f d = f d"
| "modify_dir (n # ns) f d =
     (case map_of d n of
        Some (Dir sub) \<Rightarrow> map_option (\<lambda>sub'. AList.update n (Dir sub') d) (modify_dir ns f sub)
      | _ \<Rightarrow> None)"

definition os_rename :: "bool \<Rightarrow> path \<Rightarrow> string \<Rightarrow> string \<Rightarrow> fsdir \<Rightarrow> fsdir option" where
  "os_rename os_ok parent old new d = modify_dir parent (rename_entry os_ok old new) d"

text \<open>
  \<^verbatim>\<open>os.path.splitext\<close> on a name without separators: the extension starts at the last dot,
  unless only dots come before it.
\<close>

definition splitext :: "string \<Rightarrow> string \<times> string" where
  "splitext p =
     (let r = rev p;
          ext_rev = takeWhile (\<lambda>c. c \<noteq> CHR ''.'') r;
          rest = dropWhile (\<lambda>c. c \<noteq> CHR ''.'') r
      in case rest of
           [] \<Rightarrow> (p, [])
         | dot # base_rev \<Rightarrow>
             if \<exists>c \<in> set base_rev. c \<noteq> CHR ''.'' then (rev base_rev, CHR ''.'' # rev ext_rev)
             else (p, []))"

text \<open>
  The passes of reconciliation return the exception that ended them, if any, and the
  tree as it was left at that moment.
\<close>

type_synonym fs_result = "exn option \<times> fsdir"

datatype fs_step = Makedirs path | Raise exn

fun run_steps :: "fs_step list \<Rightarrow> fsdir \<Rightarrow> fs_result" where
  "run_steps [] d = (None, d)"
| "run_steps (Raise e # steps) d = (Some e, d)"
| "run_steps (Makedirs p # steps) d =
     (case makedirs p d of None \<Rightarrow> (Some OSError, d) | Some d' \<Rightarrow> run_steps steps d')"

text \<open>
  The loop of \<^verbatim>\<open>sync_filesystem_with_json\<close>, lines 610-621, as the sequence of its calls:
  a project value without \<^verbatim>\<open>items()\<close> raises \<^verbatim>\<open>AttributeError\<close> after the project's own
  directory has been made.
\<close>

definition sync_project_steps :: "string \<times> json \<Rightarrow> fs_step list" where
  "sync_project_steps pc =
     Makedirs [fst pc] #
       (case snd pc of
          JDict categories \<Rightarrow> map (\<lambda>ca. Makedirs [fst pc, fst ca]) categories
        | _ \<Rightarrow> [Raise AttributeError])"

definition sync_steps :: "pydict \<Rightarrow> fs_step list" where
  "sync_steps h = concat (map sync_project_steps h)"

text \<open>
  \<^verbatim>\<open>set(a["db_name"] for a in asset_list)\<close>, line 652: every element is subscripted and the
  value must be hashable, which a list or a dict is not.
\<close>

fun db_names :: "json list \<Rightarrow> exn + json list" where
  "db_names [] = Inr []"
| "db_names (a # as) =
     (case subscript a ''db_name'' of
        Inl e \<Rightarrow> Inl e
      | Inr (JList l) \<Rightarrow> Inl TypeError
      | Inr (JDict d) \<Rightarrow> Inl TypeError
      | Inr v \<Rightarrow> (case db_names as of Inl e \<Rightarrow> Inl e | Inr vs \<Rightarrow> Inr (v # vs)))"

definition category_db_names :: "json \<Rightarrow> exn + json list" where
  "category_db_names cat_val =
     (case iterate (unwrap cat_val) of Inl e \<Rightarrow> Inl e | Inr xs \<Rightarrow> db_names xs)"

text \<open>
  Lines 653-656, over the listing of a category directory: an entry with extension
  \<^verbatim>\<open>.txt\<close> whose base name is no \<^verbatim>\<open>db_name\<close> is passed to \<^verbatim>\<open>os.remove\<close>, which deletes a file
  and raises on a directory.
\<close>

fun cleanup_entries :: "json list \<Rightarrow> fsdir \<Rightarrow> fs_result" where
  "cleanup_entries dbs [] = (None, [])"
| "cleanup_entries dbs ((asset_file, node) # rest) =
     (if snd (splitext asset_file) = ''.txt'' \<and> JStr (fst (splitext asset_file)) \<notin> set dbs
      then (case node of
              File \<Rightarrow> cleanup_entries dbs rest
            | Dir sub \<Rightarrow> (Some OSError, (asset_file, node) # rest))
      else (case cleanup_entries dbs rest of (e, rest') \<Rightarrow> (e, (asset_file, node) # rest')))"

text \<open>
  \<^verbatim>\<open>category_folder not in self.assets_hierarchy[project_folder]\<close>, line 642: a key test on
  a dict, an element test on a list, a substring test on a string.
\<close>

definition name_in :: "string \<Rightarrow> json \<Rightarrow> exn + bool" where
  "name_in name x =
     (case x of
        JDict d \<Rightarrow> Inr (has_key d name)
      | JList xs \<Rightarrow> Inr (JStr name \<in> set xs)
      | JStr s \<Rightarrow> Inr (str_contains name s)
      | _ \<Rightarrow> Inl TypeError)"

text \<open>Lines 637-656, over the listing of a project directory.\<close>

fun cleanup_categories :: "json \<Rightarrow> fsdir \<Rightarrow> fs_result" where
  "cleanup_categories cats [] = (None, [])"
| "cleanup_categories cats ((category_folder, File) # rest) =
     (case cleanup_categories cats rest of (e, rest') \<Rightarrow> (e, (category_folder, File) # rest'))"
| "cleanup_categories cats ((category_folder, Dir sub) # rest) =
     (case name_in category_folder cats of
        Inl e \<Rightarrow> (Some e, (category_folder, Dir sub) # rest)
      | Inr False \<Rightarrow> cleanup_categories cats rest
      | Inr True \<Rightarrow>
          (case subscript cats category_folder of
             Inl e \<Rightarrow> (Some e, (category_folder, Dir sub) # rest)
           | Inr cat_val \<Rightarrow>
               (case category_db_names cat_val of
                  Inl e \<Rightarrow> (Some e, (category_folder, Dir sub) # rest)
                | Inr dbs \<Rightarrow>
                    (case cleanup_entries dbs sub of
                       (Some e, sub') \<Rightarrow> (Some e, (category_folder, Dir sub') # rest)
                     | (None, sub') \<Rightarrow>
                         (case cleanup_categories cats rest of
                            (e, rest') \<Rightarrow> (e, (category_folder, Dir sub') # rest'))))))"

text \<open>\<^verbatim>\<open>cleanup_filesystem\<close>, lines 626-656, over the listing of the root directory.\<close>

fun cleanup_filesystem :: "pydict \<Rightarrow> fsdir \<Rightarrow> fs_result" where
  "cleanup_filesystem h [] = (None, [])"
| "cleanup_filesystem h ((project_folder, File) # rest) =
     (case cleanup_filesystem h rest of (e, rest') \<Rightarrow> (e, (project_folder, File) # rest'))"
| "cleanup_filesystem h ((project_folder, Dir sub) # rest) =
     (case map_of h project_folder of
        None \<Rightarrow> cleanup_filesystem h rest
      | Some cats \<Rightarrow>
          (case cleanup_categories cats sub of
             (Some e, sub') \<Rightarrow> (Some e, (project_folder, Dir sub') # rest)
           | (None, sub') \<Rightarrow>
               (case cleanup_filesystem h rest of
                  (e, rest') \<Rightarrow> (e, (project_folder, Dir sub') # rest'))))"

text \<open>
  \<^verbatim>\<open>create_hidden_folders\<close>, lines 658-681, as the sequence of its \<^verbatim>\<open>os.makedirs\<close> calls. A
  category or a \<^verbatim>\<open>db_name\<close> that is not a string makes \<^verbatim>\<open>os.path.join\<close> raise \<^verbatim>\<open>TypeError\<close>.
\<close>

definition hidden_folders :: "string list" where
  "hidden_folders = [''__temp'', ''__tools'', ''__config'']"

definition hidden_steps :: "path \<Rightarrow> fs_step list" where
  "hidden_steps p = map (\<lambda>folder. Makedirs (p @ [folder])) hidden_folders"

fun asset_steps :: "path \<Rightarrow> json list \<Rightarrow> fs_step list" where
  "asset_steps category_path [] = []"
| "asset_steps category_path (asset # assets) =
     (case subscript asset ''db_name'' of
        Inl e \<Rightarrow> [Raise e]
      | Inr (JStr db_name) \<Rightarrow>
          Makedirs (category_path @ [db_name]) # hidden_steps (category_path @ [db_name])
            @ asset_steps category_path assets
      | Inr _ \<Rightarrow> [Raise TypeError])"

fun category_steps :: "pydict \<Rightarrow> string \<Rightarrow> json list \<Rightarrow> fs_step list" where
  "category_steps h project [] = []"
| "category_steps h project (JStr category # categories) =
     hidden_steps [project, category] @
       (case get_assets h (Some project) (Some category) of
          Inl e \<Rightarrow> [Raise e]
        | Inr assets \<Rightarrow>
            (case iterate assets of
               Inl e \<Rightarrow> [Raise e]
             | Inr xs \<Rightarrow> asset_steps [project, category] xs @ category_steps h project categories))"
| "category_steps h project (category # categories) = [Raise TypeError]"

definition project_steps :: "pydict \<Rightarrow> string \<times> json \<Rightarrow> fs_step list" where
  "project_steps h pc =
     hidden_steps [fst pc] @
       (case iterate (snd pc) of
          Inl e \<Rightarrow> [Raise e]
        | Inr categories \<Rightarrow> category_steps h (fst pc) categories)"

definition create_hidden_steps :: "pydict \<Rightarrow> fs_step list" where
  "create_hidden_steps h = concat (map (project_steps h) h)"

definition create_hidden_folders :: "pydict \<Rightarrow> fsdir \<Rightarrow> fs_result" where
  "create_hidden_folders h root = run_steps (create_hidden_steps h) root"

text \<open>
  \<^verbatim>\<open>sync_filesystem_with_json\<close>, lines 603-624: the ensure-present loop, then
  \<^verbatim>\<open>cleanup_filesystem\<close>, then \<^verbatim>\<open>create_hidden_folders\<close>; an exception ends it where it is
  raised. The root directory itself exists.
\<close>

definition ensure_present :: "pydict \<Rightarrow> fsdir \<Rightarrow> fs_result" where
  "ensure_present h root = run_steps (sync_steps h) root"

definition sync_filesystem_with_json :: "pydict \<Rightarrow> fsdir \<Rightarrow> fs_result" where
  "sync_filesystem_with_json h root =
     (case ensure_present h root of
        (Some e, r1) \<Rightarrow> (Some e, r1)
      | (None, r1) \<Rightarrow>
          (case cleanup_filesystem h r1 of
             (Some e, r2) \<Rightarrow> (Some e, r2)
           | (None, r2) \<Rightarrow> create_hidden_folders h r2))"

section \<open>The operations of \<^verbatim>\<open>ProjectManagerUI\<close>\<close>

text \<open>
  \<^verbatim>\<open>save_assets_to_json\<close>, lines 358-367: the file receives the hierarchy with the naming
  conventions stored under \<^verbatim>\<open>naming_conventions\<close>, then the tree is synchronised; an
  exception of the synchronisation is caught and reported. Writing the file itself is
  taken to succeed.
\<close>

definition document :: "state \<Rightarrow> json" where
  "document s = JDict (AList.update ''naming_conventions'' (naming_conventions s) (assets_hierarchy s))"

definition save_assets_to_json :: "state \<Rightarrow> msg list \<times> state" where
  "save_assets_to_json s =
     (case sync_filesystem_with_json (assets_hierarchy s) (root_dir s) of
        (e, r) \<Rightarrow>
          (if e = None then [] else [Warn_could_not_save],
           s\<lparr>config_json := Some (document s), root_dir := r\<rparr>))"

definition master_categories :: json where
  "master_categories =
     JDict [(''Company Logo'', JList []), (''Marketing Materials'', JList []),
            (''Master Materials'', JList []), (''Master Textures'', JList []),
            (''Master Assets'', JList [])]"

definition default_categories :: json where
  "default_categories =
     JDict [(''Static Meshes'', JList []), (''Textures'', JList []),
            (''Simulations'', JList []), (''Flipbooks'', JList [])]"

text \<open>
  \<^verbatim>\<open>ProjectManagerUI.__init__\<close>, lines 195-236. \<open>file\<close> is what \<^verbatim>\<open>PMT.json\<close> parses to once
  lines 202-210 have made sure that the file is there; \<open>root\<close> is the tree as found.
\<close>

definition init :: "json option \<Rightarrow> fsdir \<Rightarrow> msg list \<times> state" where
  "init file root =
     (case load_assets_from_json file of
        (msgs, data) \<Rightarrow>
          (let nc = (case map_of data ''naming_conventions'' of Some v \<Rightarrow> v | None \<Rightarrow> JDict []);
               h0 = AList.delete ''naming_conventions'' data;
               h = (if has_key h0 Master_Assets then h0
                    else AList.update Master_Assets master_categories h0);
               keys = map fst h
           in (msgs,
               \<lparr>assets_hierarchy = h,
                naming_conventions = nc,
                projects = (if Master_Assets \<in> set keys
                            then Master_Assets # remove1 Master_Assets keys else keys),
                selected_project = None,
                selected_category = None,
                config_json = file,
                root_dir = root,
                hou_version = False\<rparr>)))"

text \<open>\<^verbatim>\<open>add_project\<close>, lines 261-283; \<open>text\<close> is the content of the input field.\<close>

definition add_project :: "state \<Rightarrow> string \<Rightarrow> msg list \<times> state" where
  "add_project s text =
     (let project_name = strip text in
      if project_name \<noteq> [] then
        if project_name = Master_Assets then ([Warn_reserved_name], s)
        else if project_name \<notin> set (projects s) then
          (let s1 = s\<lparr>projects := projects s @ [project_name]\<rparr> in
           if \<not> has_key (assets_hierarchy s1) project_name then
             save_assets_to_json
               (s1\<lparr>assets_hierarchy :=
                      AList.update project_name default_categories (assets_hierarchy s1)\<rparr>)
           else ([], s1))
        else ([Warn_project_exists], s)
      else ([Warn_enter_project_name], s))"

text \<open>\<^verbatim>\<open>list.index\<close>: the position of the first occurrence.\<close>

definition list_index :: "'a list \<Rightarrow> 'a \<Rightarrow> nat" where
  "list_index xs x = length (takeWhile (\<lambda>y. y \<noteq> x) xs)"

text \<open>
  A guarded \<^verbatim>\<open>os.rename\<close>, as in lines 320-324: nothing is tried when the source does not
  exist, and a failure is a warning.
\<close>

definition try_rename ::
  "msg \<Rightarrow> bool \<Rightarrow> path \<Rightarrow> string \<Rightarrow> string \<Rightarrow> fsdir \<Rightarrow> msg list \<times> fsdir" where
  "try_rename warning os_ok parent old new root =
     (if path_exists (parent @ [old]) root then
        (case os_rename os_ok parent old new root of
           None \<Rightarrow> ([warning], root)
         | Some root' \<Rightarrow> ([], root'))
      else ([], root))"

text \<open>
  \<^verbatim>\<open>rename_project\<close>, lines 285-329. \<open>selected\<close> is the text of the selected list item,
  \<open>dialog\<close> the text and the OK flag of \<^verbatim>\<open>QInputDialog.getText\<close>, \<open>os_ok\<close> the operating
  system's verdict on the rename of the project folder.
\<close>

definition rename_project ::
  "state \<Rightarrow> string option \<Rightarrow> string \<times> bool \<Rightarrow> bool \<Rightarrow> exn + msg list \<times> state" where
  "rename_project s selected dialog os_ok =
     (case selected of
        None \<Rightarrow> Inr ([Warn_select_project_rename], s)
      | Some old_name \<Rightarrow>
          if old_name = Master_Assets then Inr ([Warn_cannot_rename], s)
          else if snd dialog \<and> fst dialog \<noteq> [] then
            (let new_name = strip (fst dialog) in
             if new_name = [] then Inr ([Warn_name_empty], s)
             else if new_name \<in> set (projects s) \<or> new_name = Master_Assets
               then Inr ([Warn_exists_or_reserved], s)
             else if old_name \<notin> set (projects s) then Inl ValueError
             else
               (case map_of (assets_hierarchy s) old_name of
                  None \<Rightarrow> Inl KeyError
                | Some categories \<Rightarrow>
                    (case try_rename Warn_rename_project_folder os_ok [] old_name new_name
                            (root_dir s) of
                       (w, root1) \<Rightarrow>
                         (case save_assets_to_json
                                 (s\<lparr>projects := (projects s)[list_index (projects s) old_name := new_name],
                                    assets_hierarchy :=
                                      AList.update new_name categories
                                        (AList.delete old_name (assets_hierarchy s)),
                                    root_dir := root1\<rparr>) of
                            (m, s') \<Rightarrow> Inr (w @ m @ [Info_project_renamed], s')))))
          else Inr ([], s))"

text \<open>
  \<^verbatim>\<open>delete_project\<close>, lines 379-397; \<open>confirm\<close> is the answer Yes to the question box.
\<close>

definition delete_project :: "state \<Rightarrow> string option \<Rightarrow> bool \<Rightarrow> exn + msg list \<times> state" where
  "delete_project s selected confirm =
     (case selected of
        None \<Rightarrow> Inr ([Warn_select_project_delete], s)
      | Some project_name \<Rightarrow>
          if project_name = Master_Assets then Inr ([Warn_cannot_delete], s)
          else if confirm then
            (if project_name \<notin> set (projects s) then Inl ValueError
             else if \<not> has_key (assets_hierarchy s) project_name then Inl KeyError
             else
               (case save_assets_to_json
                       (s\<lparr>assets_hierarchy := AList.delete project_name (assets_hierarchy s),
                          projects := remove1 project_name (projects s)\<rparr>) of
                  (m, s') \<Rightarrow> Inr (m @ [Info_project_deleted], s')))
          else Inr ([], s))"

text \<open>Sequencing of steps that may raise.\<close>

definition exn_bind :: "exn + 'a \<Rightarrow> ('a \<Rightarrow> exn + 'b) \<Rightarrow> exn + 'b" where
  "exn_bind r f = (case r of Inl e \<Rightarrow> Inl e | Inr x \<Rightarrow> f x)"

text \<open>
  \<^verbatim>\<open>show_asset_buttons\<close>, lines 424-440: it changes nothing in the document, but it reads
  the selected category and raises when that cannot be listed.
\<close>

definition show_asset_buttons :: "state \<Rightarrow> exn + unit" where
  "show_asset_buttons s =
     exn_bind (get_assets (assets_hierarchy s) (selected_project s) (selected_category s))
       (\<lambda>assets. exn_bind (iterate assets)
          (\<lambda>xs. exn_bind (get_display_names xs) (\<lambda>names. Inr ())))"

text \<open>\<^verbatim>\<open>back_to_categories\<close>, lines 404-416: \<^verbatim>\<open>self.assets_hierarchy[self.selected_project].keys()\<close>.\<close>

definition back_to_categories :: "state \<Rightarrow> exn + msg list \<times> state" where
  "back_to_categories s =
     (case selected_project s of
        None \<Rightarrow> Inl KeyError
      | Some p \<Rightarrow>
          (case map_of (assets_hierarchy s) p of
             None \<Rightarrow> Inl KeyError
           | Some (JDict categories) \<Rightarrow> Inr ([], s)
           | Some _ \<Rightarrow> Inl AttributeError))"

definition enter_selected_project :: "state \<Rightarrow> string option \<Rightarrow> exn + msg list \<times> state" where
  "enter_selected_project s selected =
     (case selected of
        None \<Rightarrow> Inr ([Warn_select_project_enter], s)
      | Some p \<Rightarrow> back_to_categories (s\<lparr>selected_project := Some p\<rparr>))"

definition view_comp_assets :: "state \<Rightarrow> exn + msg list \<times> state" where
  "view_comp_assets s = back_to_categories (s\<lparr>selected_project := Some Master_Assets\<rparr>)"

definition category_button_clicked :: "state \<Rightarrow> string \<Rightarrow> exn + msg list \<times> state" where
  "category_button_clicked s category =
     exn_bind (show_asset_buttons (s\<lparr>selected_category := Some category\<rparr>))
       (\<lambda>u. Inr ([], s\<lparr>selected_category := Some category\<rparr>))"

text \<open>
  \<^verbatim>\<open>x.get(key, default)\<close>: only a dict has \<^verbatim>\<open>get\<close>. The key may be \<^verbatim>\<open>None\<close>, which no dict
  read from JSON contains.
\<close>

definition dict_get :: "json \<Rightarrow> string option \<Rightarrow> json \<Rightarrow> exn + json" where
  "dict_get x key dflt =
     (case x of
        JDict d \<Rightarrow>
          (case key of
             None \<Rightarrow> Inr dflt
           | Some k \<Rightarrow> (case map_of d k of Some v \<Rightarrow> Inr v | None \<Rightarrow> Inr dflt))
      | _ \<Rightarrow> Inl AttributeError)"

text \<open>
  A value placed in an f-string: a string stands for itself; what Python prints for any
  other value is the parameter \<open>fmt\<close>.
\<close>

definition py_format :: "(json \<Rightarrow> string) \<Rightarrow> json \<Rightarrow> string" where
  "py_format fmt v = (case v of JStr s \<Rightarrow> s | _ \<Rightarrow> fmt v)"

text \<open>
  Lines 470-477 and 517-524: only for the category \<^verbatim>\<open>Textures\<close>, and only when its
  convention has the key \<^verbatim>\<open>suffixes\<close>, the user is asked for a texture type. \<open>variant\<close> is
  the item and the OK flag that \<^verbatim>\<open>QInputDialog.getItem\<close> returns. The result \<open>None\<close> is the
  \<^verbatim>\<open>return\<close> after a cancelled dialog.
\<close>

definition choose_suffix ::
  "string option \<Rightarrow> json \<Rightarrow> json \<Rightarrow> string \<times> bool \<Rightarrow> exn + json option" where
  "choose_suffix category convention suffix variant =
     (if category = Some ''Textures'' \<and> (case convention of JDict d \<Rightarrow> has_key d ''suffixes'' | _ \<Rightarrow> False)
      then exn_bind (subscript convention ''suffixes'')
             (\<lambda>suffixes.
                case suffixes of
                  JDict sd \<Rightarrow>
                    if \<not> snd variant then Inr None
                    else (case map_of sd (fst variant) of
                            None \<Rightarrow> Inl KeyError
                          | Some v \<Rightarrow> Inr (Some v))
                | _ \<Rightarrow> Inl AttributeError)
      else Inr (Some suffix))"

text \<open>
  Lines 466-479 and 513-526, the same in \<^verbatim>\<open>create_asset_clicked\<close> and \<^verbatim>\<open>edit_asset_clicked\<close>:
  the identifier \<^verbatim>\<open>f"{prefix}{display_name.replace(' ', '')}{suffix}"\<close>.
\<close>

definition resolve_db_name ::
  "(json \<Rightarrow> string) \<Rightarrow> json \<Rightarrow> string option \<Rightarrow> string \<Rightarrow> string \<times> bool
     \<Rightarrow> exn + string option" where
  "resolve_db_name fmt conventions category display_name variant =
     exn_bind (dict_get conventions category (JDict []))
       (\<lambda>convention. exn_bind (dict_get convention (Some ''prefix'') (JStr []))
          (\<lambda>prefix. exn_bind (dict_get convention (Some ''suffix'') (JStr []))
             (\<lambda>suffix. exn_bind (choose_suffix category convention suffix variant)
                (\<lambda>chosen.
                   case chosen of
                     None \<Rightarrow> Inr None
                   | Some suffix' \<Rightarrow>
                       Inr (Some (py_format fmt prefix @ remove_spaces display_name
                                    @ py_format fmt suffix'))))))"

text \<open>
  \<^verbatim>\<open>check_houdini_version\<close>, lines 696-708, and \<^verbatim>\<open>create_new_file\<close>, lines 732-747. Whether a
  supported version is installed, and what the script and the external \<^verbatim>\<open>hython\<close> run do
  to the tree, is the environment's: \<open>None\<close> when no version is found, otherwise the
  effect of \<^verbatim>\<open>create_new_file\<close>, which may raise.
\<close>

definition houdini_step ::
  "(fsdir \<Rightarrow> exn + fsdir) option \<Rightarrow> state \<Rightarrow> exn + msg list \<times> state" where
  "houdini_step houdini s =
     (case houdini of
        None \<Rightarrow> Inr (if hou_version s then [] else [Warn_no_houdini], s)
      | Some create_new_file \<Rightarrow>
          exn_bind (create_new_file (root_dir s))
            (\<lambda>r. Inr ([], s\<lparr>root_dir := r, hou_version := True\<rparr>)))"

definition put_selected :: "state \<Rightarrow> json list \<Rightarrow> state" where
  "put_selected s xs =
     (case (selected_project s, selected_category s) of
        (Some p, Some c) \<Rightarrow> s\<lparr>assets_hierarchy := put_assets (assets_hierarchy s) p c xs\<rparr>
      | _ \<Rightarrow> s)"

definition new_asset :: "string \<Rightarrow> string \<Rightarrow> json" where
  "new_asset display_name db_name =
     JDict [(''display_name'', JStr display_name), (''db_name'', JStr db_name)]"

text \<open>
  \<^verbatim>\<open>create_asset_clicked\<close>, lines 459-495. \<open>name_dialog\<close> is the text and the OK flag of the
  name dialog. \<^verbatim>\<open>assets.append\<close> exists on a list only.
\<close>

definition create_asset_clicked ::
  "(json \<Rightarrow> string) \<Rightarrow> state \<Rightarrow> string \<times> bool \<Rightarrow> string \<times> bool
     \<Rightarrow> (fsdir \<Rightarrow> exn + fsdir) option \<Rightarrow> exn + msg list \<times> state" where
  "create_asset_clicked fmt s name_dialog variant houdini =
     (if \<not> (snd name_dialog \<and> fst name_dialog \<noteq> []) then Inr ([], s)
      else
        exn_bind (resolve_db_name fmt (naming_conventions s) (selected_category s)
                    (fst name_dialog) variant)
          (\<lambda>resolved.
             case resolved of
               None \<Rightarrow> Inr ([], s)
             | Some db_name \<Rightarrow>
                 exn_bind (get_assets (assets_hierarchy s) (selected_project s) (selected_category s))
                   (\<lambda>assets. exn_bind (iterate assets)
                      (\<lambda>xs. exn_bind (any_db_name xs db_name)
                         (\<lambda>duplicate.
                            if duplicate then Inr ([Warn_duplicate], s)
                            else
                              (case assets of
                                 JList ys \<Rightarrow>
                                   (case save_assets_to_json
                                           (put_selected s (ys @ [new_asset (fst name_dialog) db_name])) of
                                      (m, s1) \<Rightarrow>
                                        exn_bind (houdini_step houdini s1)
                                          (\<lambda>(hm, s2).
                                             exn_bind (show_asset_buttons s2)
                                               (\<lambda>u. Inr (m @ hm @ [Info_asset_created], s2))))
                               | _ \<Rightarrow> Inl AttributeError))))))"

text \<open>
  \<^verbatim>\<open>edit_asset_clicked\<close>, lines 497-580. \<open>asset_name\<close> is the display name carried by the
  button; \<open>file_ok\<close> and \<open>folder_ok\<close> are the operating system's verdicts on the two
  renames. The duplicate test skips every element that \<^verbatim>\<open>==\<close> the asset found. The asset
  dict is updated in place, so its other keys and their order stay.
\<close>

definition rename_asset_dict :: "json \<Rightarrow> string \<Rightarrow> string \<Rightarrow> json" where
  "rename_asset_dict asset display_name db_name =
     (case asset of
        JDict d \<Rightarrow>
          JDict (AList.update ''db_name'' (JStr db_name)
                   (AList.update ''display_name'' (JStr display_name) d))
      | _ \<Rightarrow> asset)"

definition hipnc :: "string \<Rightarrow> string" where
  "hipnc db_name = db_name @ ''.hipnc''"

definition selected_path :: "state \<Rightarrow> path" where
  "selected_path s =
     (case (selected_project s, selected_category s) of
        (Some p, Some c) \<Rightarrow> [p, c]
      | _ \<Rightarrow> [])"

text \<open>Lines 531-580: the two renames on disk, the update in memory, the save.\<close>

definition apply_rename ::
  "state \<Rightarrow> json list \<Rightarrow> nat \<Rightarrow> string \<Rightarrow> string \<Rightarrow> string \<Rightarrow> bool \<Rightarrow> bool
     \<Rightarrow> exn + msg list \<times> state" where
  "apply_rename s xs i new_display_name new_db_name old_db_name file_ok folder_ok =
     (case try_rename Warn_rename_file file_ok (selected_path s @ [old_db_name])
             (hipnc old_db_name) (hipnc new_db_name) (root_dir s) of
        (w1, r1) \<Rightarrow>
          (case try_rename Warn_rename_asset_folder folder_ok (selected_path s)
                  old_db_name new_db_name r1 of
             (w2, r2) \<Rightarrow>
               (case save_assets_to_json
                       (put_selected (s\<lparr>root_dir := r2\<rparr>)
                          (xs[i := rename_asset_dict (xs ! i) new_display_name new_db_name])) of
                  (m, s1) \<Rightarrow>
                    exn_bind (show_asset_buttons s1)
                      (\<lambda>u. Inr (w1 @ w2 @ m @ [Info_asset_renamed], s1)))))"

text \<open>Lines 526-546: the duplicate test, then the old identifier, which must be a string.\<close>

definition check_and_rename ::
  "state \<Rightarrow> json list \<Rightarrow> nat \<Rightarrow> string \<Rightarrow> string \<Rightarrow> bool \<Rightarrow> bool
     \<Rightarrow> exn + msg list \<times> state" where
  "check_and_rename s xs i new_display_name new_db_name file_ok folder_ok =
     exn_bind (any_db_name (filter (\<lambda>a. \<not> py_eq a (xs ! i)) xs) new_db_name)
       (\<lambda>duplicate.
          if duplicate then Inr ([Warn_duplicate], s)
          else
            exn_bind (subscript (xs ! i) ''db_name'')
              (\<lambda>old.
                 case old of
                   JStr old_db_name \<Rightarrow>
                     apply_rename s xs i new_display_name new_db_name old_db_name file_ok folder_ok
                 | _ \<Rightarrow> Inl TypeError))"

definition edit_asset_clicked ::
  "(json \<Rightarrow> string) \<Rightarrow> state \<Rightarrow> string \<Rightarrow> string \<times> bool \<Rightarrow> string \<times> bool \<Rightarrow> bool \<Rightarrow> bool
     \<Rightarrow> exn + msg list \<times> state" where
  "edit_asset_clicked fmt s asset_name name_dialog variant file_ok folder_ok =
     exn_bind (get_assets (assets_hierarchy s) (selected_project s) (selected_category s))
       (\<lambda>assets. exn_bind (iterate assets)
          (\<lambda>xs. exn_bind (find_asset_by_display_name xs asset_name)
             (\<lambda>found.
                case found of
                  None \<Rightarrow> Inr ([Warn_asset_not_found], s)
                | Some i \<Rightarrow>
                    if \<not> (snd name_dialog \<and> fst name_dialog \<noteq> []) then Inr ([], s)
                    else
                      exn_bind (resolve_db_name fmt (naming_conventions s) (selected_category s)
                                  (fst name_dialog) variant)
                        (\<lambda>resolved.
                           case resolved of
                             None \<Rightarrow> Inr ([], s)
                           | Some new_db_name \<Rightarrow>
                               check_and_rename s xs i (fst name_dialog) new_db_name
                                 file_ok folder_ok))))"

text \<open>
  \<^verbatim>\<open>delete_asset_clicked\<close>, lines 582-601. \<^verbatim>\<open>assets.remove(asset)\<close> removes the first element
  that \<^verbatim>\<open>==\<close> the asset found; no earlier element can, since it would have the same
  \<^verbatim>\<open>display_name\<close> and would have been found instead.
\<close>

definition remove_nth :: "nat \<Rightarrow> 'a list \<Rightarrow> 'a list" where
  "remove_nth i xs = take i xs @ drop (Suc i) xs"

definition delete_asset_clicked :: "state \<Rightarrow> string \<Rightarrow> bool \<Rightarrow> exn + msg list \<times> state" where
  "delete_asset_clicked s asset_name confirm =
     exn_bind (get_assets (assets_hierarchy s) (selected_project s) (selected_category s))
       (\<lambda>assets. exn_bind (iterate assets)
          (\<lambda>xs. exn_bind (find_asset_by_display_name xs asset_name)
             (\<lambda>found.
                case found of
                  None \<Rightarrow> Inr ([Warn_asset_not_in_list], s)
                | Some i \<Rightarrow>
                    if confirm then
                      (case save_assets_to_json (put_selected s (remove_nth i xs)) of
                         (m, s1) \<Rightarrow>
                           exn_bind (show_asset_buttons s1)
                             (\<lambda>u. Inr (m @ [Info_asset_deleted], s1)))
                    else Inr ([], s))))"

section \<open>Sequences of operations\<close>

text \<open>
  One user action with everything the environment contributes to it. Opening an asset
  in the external application (\<^verbatim>\<open>asset_button_clicked\<close>) does not touch the document and is
  not an action here.
\<close>

datatype action =
    Add_project string
  | Rename_project "string option" "string \<times> bool" bool
  | Delete_project "string option" bool
  | Enter_selected_project "string option"
  | View_comp_assets
  | Category_button_clicked string
  | Create_asset_clicked "string \<times> bool" "string \<times> bool" "(fsdir \<Rightarrow> exn + fsdir) option"
  | Edit_asset_clicked string "string \<times> bool" "string \<times> bool" bool bool
  | Delete_asset_clicked string bool

fun step :: "(json \<Rightarrow> string) \<Rightarrow> state \<Rightarrow> action \<Rightarrow> exn + msg list \<times> state" where
  "step fmt s (Add_project text) = Inr (add_project s text)"
| "step fmt s (Rename_project selected dialog os_ok) = rename_project s selected dialog os_ok"
| "step fmt s (Delete_project selected confirm) = delete_project s selected confirm"
| "step fmt s (Enter_selected_project selected) = enter_selected_project s selected"
| "step fmt s View_comp_assets = view_comp_assets s"
| "step fmt s (Category_button_clicked category) = category_button_clicked s category"
| "step fmt s (Create_asset_clicked name_dialog variant houdini) =
     create_asset_clicked fmt s name_dialog variant houdini"
| "step fmt s (Edit_asset_clicked asset_name name_dialog variant file_ok folder_ok) =
     edit_asset_clicked fmt s asset_name name_dialog variant file_ok folder_ok"
| "step fmt s (Delete_asset_clicked asset_name confirm) = delete_asset_clicked s asset_name confirm"

fun run :: "(json \<Rightarrow> string) \<Rightarrow> state \<Rightarrow> action list \<Rightarrow> exn + state" where
  "run fmt s [] = Inr s"
| "run fmt s (a # as) =
     (case step fmt s a of Inl e \<Rightarrow> Inl e | Inr (m, s') \<Rightarrow> run fmt s' as)"

text \<open>
  The states the program can be in: it starts from any document file whose dicts have
  no repeated key, and any tree, and performs any actions that do not raise.
\<close>

inductive reachable :: "(json \<Rightarrow> string) \<Rightarrow> state \<Rightarrow> bool" for fmt where
  reachable_init: "(\<forall>j. file = Some j \<longrightarrow> wf_json j) \<Longrightarrow> reachable fmt (snd (init file root))"
| reachable_step: "reachable fmt s \<Longrightarrow> step fmt s a = Inr (m, s') \<Longrightarrow> reachable fmt s'"

section \<open>Invariants\<close>

text \<open>
  The reserved project is a key of the hierarchy and an element of the project list,
  and neither holds a name twice.
\<close>

definition inv :: "state \<Rightarrow> bool" where
  "inv s \<longleftrightarrow> distinct (map fst (assets_hierarchy s)) \<and> has_key (assets_hierarchy s) Master_Assets
     \<and> distinct (projects s) \<and> Master_Assets \<in> set (projects s)"

text \<open>What an asset operation can do to the state, seen from outside.\<close>

definition asset_change :: "state \<Rightarrow> state \<Rightarrow> bool" where
  "asset_change s s' \<longleftrightarrow>
     map fst (assets_hierarchy s') = map fst (assets_hierarchy s) \<and> projects s' = projects s
     \<and> naming_conventions s' = naming_conventions s"


section \<open>Vocabulary of the specification\<close>

text \<open>
  The convention of a category as the specification reads it: absence is the empty
  convention, an absent \<^verbatim>\<open>prefix\<close> or \<^verbatim>\<open>suffix\<close> is the empty string.
\<close>

definition convention_of :: "json \<Rightarrow> string \<Rightarrow> pydict" where
  "convention_of conventions category =
     (case conventions of
        JDict d \<Rightarrow> (case map_of d category of Some (JDict convention) \<Rightarrow> convention | _ \<Rightarrow> [])
      | _ \<Rightarrow> [])"

definition affix :: "pydict \<Rightarrow> string \<Rightarrow> string" where
  "affix convention key = (case map_of convention key of Some (JStr a) \<Rightarrow> a | _ \<Rightarrow> [])"

definition string_or_absent :: "pydict \<Rightarrow> string \<Rightarrow> bool" where
  "string_or_absent convention key =
     (case map_of convention key of None \<Rightarrow> True | Some (JStr a) \<Rightarrow> True | Some _ \<Rightarrow> False)"

text \<open>
  The conventions are a dict, and the entry of the category, when there is one, is a
  dict whose \<^verbatim>\<open>prefix\<close> and \<^verbatim>\<open>suffix\<close> are strings.
\<close>

definition typed_convention :: "json \<Rightarrow> string \<Rightarrow> bool" where
  "typed_convention conventions category =
     (case conventions of
        JDict d \<Rightarrow>
          (case map_of d category of
             None \<Rightarrow> True
           | Some (JDict convention) \<Rightarrow>
               string_or_absent convention ''prefix'' \<and> string_or_absent convention ''suffix''
           | Some _ \<Rightarrow> False)
      | _ \<Rightarrow> False)"

text \<open>A convention in variant form: it contains a \<^verbatim>\<open>suffixes\<close> mapping.\<close>

definition variant_form :: "pydict \<Rightarrow> bool" where
  "variant_form convention =
     (case map_of convention ''suffixes'' of Some (JDict sd) \<Rightarrow> True | _ \<Rightarrow> False)"

text \<open>
  \<open>removeWhitespace\<close> in the words of the specification: every whitespace character
  goes, not only the space.
\<close>

definition removeWhitespace :: "string \<Rightarrow> string" where
  "removeWhitespace s = filter (\<lambda>c. \<not> is_py_space c) s"

definition spec_identifier :: "string \<Rightarrow> string \<Rightarrow> string \<Rightarrow> string" where
  "spec_identifier prefix displayName suffix = prefix @ removeWhitespace displayName @ suffix"

text \<open>Values that are not strings do not occur in the examples; they print as nothing.\<close>

definition no_format :: "json \<Rightarrow> string" where
  "no_format v = []"

section \<open>Concrete documents and trees\<close>

definition doc_canonical :: json where
  "doc_canonical =
     JDict [(''Show A'',
             JDict [(''Textures'',
                     JList [JDict [(''display_name'', JStr ''Rock''), (''db_name'', JStr ''Rock'')]])]),
            (''naming_conventions'', JDict [(''Textures'', JDict [(''prefix'', JStr ''T_'')])])]"

definition conventions_example :: json where
  "conventions_example =
     JDict [(''Static Meshes'', JDict [(''prefix'', JStr ''SM_''), (''suffix'', JStr [])]),
            (''Textures'', JDict [(''prefix'', JStr ''T_''), (''suffixes'', JDict [(''Diffuse'', JStr ''_D'')])]),
            (''Master Textures'', JDict [(''suffixes'', JDict [(''Diffuse'', JStr ''_D'')])])]"

definition hero_tab_sword :: string where
  "hero_tab_sword = ''Hero'' @ [CHR 0x09] @ ''Sword''"

definition state_initial :: state where
  "state_initial = snd (init None [])"

text \<open>A state with a project entered, the category \<^verbatim>\<open>Textures\<close> selected and one asset in it.\<close>

definition state_textures :: state where
  "state_textures =
     \<lparr>assets_hierarchy =
        [(Master_Assets, master_categories),
         (''Show A'',
          JDict [(''Static Meshes'', JList []),
                 (''Textures'', JList [new_asset ''Rock Diffuse'' ''T_RockDiffuse_D'']),
                 (''Simulations'', JList []), (''Flipbooks'', JList [])])],
      naming_conventions = conventions_example,
      projects = [Master_Assets, ''Show A''],
      selected_project = Some ''Show A'', selected_category = Some ''Textures'',
      config_json = None, root_dir = [], hou_version = False\<rparr>"

text \<open>
  What every action leaves alone: the conventions; and the file is written again
  whenever the hierarchy changes.
\<close>

definition persisted :: "state \<Rightarrow> state \<Rightarrow> bool" where
  "persisted s s' \<longleftrightarrow>
     naming_conventions s' = naming_conventions s
     \<and> ((config_json s' = config_json s \<and> assets_hierarchy s' = assets_hierarchy s)
        \<or> config_json s' = Some (document s'))"

text \<open>The external file creation of \<^verbatim>\<open>create_new_file\<close> does not raise.\<close>

definition houdini_returns :: "(fsdir \<Rightarrow> exn + fsdir) option \<Rightarrow> bool" where
  "houdini_returns houdini = (case houdini of None \<Rightarrow> True | Some f \<Rightarrow> \<forall>r. \<exists>r'. f r = Inr r')"

text \<open>Some asset of the list has the given identifier as its \<^verbatim>\<open>db_name\<close>.\<close>

definition has_db_name :: "json list \<Rightarrow> string \<Rightarrow> bool" where
  "has_db_name xs db_name = (\<exists>a \<in> set xs. subscript a ''db_name'' = Inr (JStr db_name))"

text \<open>The wrapper form of a category value: an object with the key \<^verbatim>\<open>assets\<close>.\<close>

definition is_wrapper :: "json \<Rightarrow> bool" where
  "is_wrapper v = (case v of JDict w \<Rightarrow> has_key w ''assets'' | _ \<Rightarrow> False)"

text \<open>
  Every category value of every project of a written document is a bare sequence.
\<close>

definition bare_categories :: "json \<Rightarrow> bool" where
  "bare_categories doc =
     (case doc of
        JDict d \<Rightarrow>
          list_all (\<lambda>pc. fst pc = ''naming_conventions'' \<or>
                      (case snd pc of
                         JDict cs \<Rightarrow> list_all (\<lambda>cv. case snd cv of JList xs \<Rightarrow> True | _ \<Rightarrow> False) cs
                       | _ \<Rightarrow> False)) d
      | _ \<Rightarrow> False)"

definition doc_wrapper :: json where
  "doc_wrapper = JDict [(''Show A'', JDict [(''Textures'', JDict [(''assets'', JList [JStr ''Rock''])])])]"

definition written_wrapper :: json where
  "written_wrapper =
     JDict [(''Show A'',
             JDict [(''Textures'',
                     JDict [(''assets'', JList [new_asset ''Rock'' ''Rock''])])]),
            (Master_Assets, master_categories),
            (''naming_conventions'', JDict [])]"

text \<open>
  A document with a project that has the legacy category \<^verbatim>\<open>Meshes\<close> beside a
  \<^verbatim>\<open>Static Meshes\<close> in wrapper form.
\<close>

definition doc_legacy :: json where
  "doc_legacy =
     JDict [(''Show A'',
             JDict [(''Static Meshes'', JDict [(''assets'', JList [JStr ''Old Crate''])]),
                    (''Meshes'', JList [JStr ''Barrel'']),
                    (''Textures'', JDict [(''assets'', JList [JStr ''Rock''])])])]"

text \<open>A rename on disk that is tried and fails.\<close>

definition rename_fails :: "bool \<Rightarrow> path \<Rightarrow> string \<Rightarrow> string \<Rightarrow> fsdir \<Rightarrow> bool" where
  "rename_fails os_ok parent old new root \<longleftrightarrow>
     path_exists (parent @ [old]) root \<and> os_rename os_ok parent old new root = None"

text \<open>A tree with the folder and the data file of the asset of \<open>state_textures\<close>.\<close>

definition tree_textures :: fsdir where
  "tree_textures =
     [(''Show A'',
       Dir [(''Textures'',
             Dir [(''T_RockDiffuse_D'', Dir [(''T_RockDiffuse_D.hipnc'', File)])])])]"

definition state_on_disk :: state where
  "state_on_disk = state_textures\<lparr>root_dir := tree_textures\<rparr>"

section \<open>Paths of a tree and the completed orphan pass\<close>

text \<open>What a path is in a tree: a file, a directory, or nothing.\<close>

datatype kind = IsFile | IsDir

definition kind_at :: "path \<Rightarrow> fsdir \<Rightarrow> kind option" where
  "kind_at q d =
     (case lookup_path q d of
        None \<Rightarrow> None
      | Some File \<Rightarrow> Some IsFile
      | Some (Dir sub) \<Rightarrow> Some IsDir)"

fun is_prefix :: "'a list \<Rightarrow> 'a list \<Rightarrow> bool" where
  "is_prefix [] p = True"
| "is_prefix (a # q) [] = False"
| "is_prefix (a # q) (b # p) = (a = b \<and> is_prefix q p)"

text \<open>No directory lists a name twice.\<close>

fun wf_node :: "fsnode \<Rightarrow> bool" where
  "wf_node File = True"
| "wf_node (Dir entries) = (distinct (map fst entries) \<and> (\<forall>e \<in> set entries. wf_node (snd e)))"

definition wf_fs :: "fsdir \<Rightarrow> bool" where
  "wf_fs d = wf_node (Dir d)"

text \<open>
  What the orphan-removal pass leaves when no exception ends it, as a function of the
  tree: the stale marker names of a category, the known categories of a project, and
  the tree with the orphans cut out.
\<close>

definition stale :: "json list \<Rightarrow> string \<Rightarrow> bool" where
  "stale dbs name \<longleftrightarrow> snd (splitext name) = ''.txt'' \<and> JStr (fst (splitext name)) \<notin> set dbs"

definition stale_in :: "json \<Rightarrow> string \<Rightarrow> string \<Rightarrow> bool" where
  "stale_in cats c name =
     (case subscript cats c of
        Inl e \<Rightarrow> False
      | Inr cat_val \<Rightarrow> (case category_db_names cat_val of Inl e \<Rightarrow> False | Inr dbs \<Rightarrow> stale dbs name))"

definition known_category :: "json \<Rightarrow> string \<Rightarrow> bool" where
  "known_category cats c \<longleftrightarrow> name_in c cats = Inr True"

definition prune_entries :: "json \<Rightarrow> string \<Rightarrow> fsdir \<Rightarrow> fsdir" where
  "prune_entries cats c entries = filter (\<lambda>e. \<not> stale_in cats c (fst e)) entries"

definition prune_category :: "json \<Rightarrow> string \<times> fsnode \<Rightarrow> (string \<times> fsnode) option" where
  "prune_category cats e =
     (case snd e of
        File \<Rightarrow> Some e
      | Dir sub \<Rightarrow>
          if known_category cats (fst e) then Some (fst e, Dir (prune_entries cats (fst e) sub))
          else None)"

definition prune_project :: "pydict \<Rightarrow> string \<times> fsnode \<Rightarrow> (string \<times> fsnode) option" where
  "prune_project h e =
     (case snd e of
        File \<Rightarrow> Some e
      | Dir sub \<Rightarrow>
          (case map_of h (fst e) of
             None \<Rightarrow> None
           | Some cats \<Rightarrow> Some (fst e, Dir (List.map_filter (prune_category cats) sub))))"

definition prune :: "pydict \<Rightarrow> fsdir \<Rightarrow> fsdir" where
  "prune h root = List.map_filter (prune_project h) root"

text \<open>
  Whether a path that is of kind \<open>k\<close> in the tree is still there after the orphan-removal
  pass: this depends on the document and the path alone.
\<close>

definition survives_in :: "json \<Rightarrow> path \<Rightarrow> kind \<Rightarrow> bool" where
  "survives_in cats q k =
     (case q of
        [] \<Rightarrow> True
      | [c] \<Rightarrow> k = IsFile \<or> known_category cats c
      | c # name # rest \<Rightarrow> known_category cats c \<and> \<not> stale_in cats c name)"

definition survives :: "pydict \<Rightarrow> path \<Rightarrow> kind \<Rightarrow> bool" where
  "survives h q k =
     (case q of
        [] \<Rightarrow> True
      | [p] \<Rightarrow> k = IsFile \<or> map_of h p \<noteq> None
      | p # c # rest \<Rightarrow>
          (case map_of h p of None \<Rightarrow> False | Some cats \<Rightarrow> survives_in cats (c # rest) k))"

definition filter_kind :: "bool \<Rightarrow> kind option \<Rightarrow> kind option" where
  "filter_kind keep k = (if keep then k else None)"













section \<open>Concrete documents and trees for the synchronisation\<close>






text \<open>
  A document whose only asset has an identifier that ends in \<^verbatim>\<open>.txt\<close>, and a tree with the
  folder of that asset and, listed after it, a project directory that the document does not
  have.
\<close>

definition doc_notes :: pydict where
  "doc_notes = [(''Show A'', JDict [(''Props'', JList [new_asset ''notes.txt'' ''notes.txt''])])]"

definition tree_notes :: fsdir where
  "tree_notes =
     [(''Show A'', Dir [(''Props'', Dir [(''notes.txt'', Dir [])])]),
      (''Zold'', Dir [(''Props'', Dir [])])]"

text \<open>The same situation reached through the user interface, from the initial state.\<close>

definition actions_notes :: "action list" where
  "actions_notes =
     [Add_project ''Show A'', Add_project ''Zold'', Enter_selected_project (Some ''Show A''),
      Category_button_clicked ''Static Meshes'',
      Create_asset_clicked (''notes.txt'', True) ([], False) None]"


section \<open>Properties of the migration\<close>

lemma migrate_asset_idem: "migrate_asset (migrate_asset a) = migrate_asset a"
  by (cases a) auto

lemma map_migrate_asset_idem:
  "map migrate_asset (map migrate_asset xs) = map migrate_asset xs"
  by (induction xs) (simp_all add: migrate_asset_idem)

lemma migrate_asset_list_fix:
  "migrate_asset_list x = Some y \<Longrightarrow> migrate_asset_list y = Some y"
proof (cases x)
  case (JList xs)
  assume "migrate_asset_list x = Some y"
  with JList have "y = JList (map migrate_asset xs)" by simp
  then show ?thesis using map_migrate_asset_idem[of xs] by (simp del: map_map)
qed (auto split: if_splits)

lemma migrate_category_fix:
  "migrate_category x = Some y \<Longrightarrow> migrate_category y = Some y"
  unfolding migrate_category_def
  by (auto split: json.splits option.splits if_splits
           simp: update_conv' migrate_asset_idem dest: migrate_asset_list_fix)

text \<open>A pass over the entries of a dict that keeps keys and reaches fixed points.\<close>

lemma those_map_fix:
  assumes "\<And>k v w. f (k, v) = Some w \<Longrightarrow> fst w = k \<and> f w = Some w"
  shows "those (map f xs) = Some ys \<Longrightarrow> those (map f ys) = Some ys \<and> map fst ys = map fst xs"
proof (induction xs arbitrary: ys)
  case Nil
  then show ?case by simp
next
  case (Cons x xs)
  then show ?case using assms
    by (cases x) (auto split: option.splits)
qed

lemma migrate_categories_fix:
  "migrate_categories cs = Some cs' \<Longrightarrow>
   migrate_categories cs' = Some cs' \<and> map fst cs' = map fst cs"
  unfolding migrate_categories_def
  by (rule those_map_fix) (auto dest: migrate_category_fix)

lemma has_key_map_of: "has_key d k \<longleftrightarrow> map_of d k \<noteq> None"
  by (simp add: has_key_def map_of_eq_None_iff)

lemma rename_meshes_no_Meshes: "\<not> has_key (rename_meshes d) ''Meshes''"
  by (auto simp: has_key_map_of rename_meshes_def update_conv' delete_conv' split: option.splits)

lemma rename_meshes_id: "\<not> has_key d ''Meshes'' \<Longrightarrow> rename_meshes d = d"
  by (auto simp: has_key_map_of rename_meshes_def)

lemma migrate_project_fix:
  "migrate_project x = Some y \<Longrightarrow> migrate_project y = Some y"
proof -
  assume a: "migrate_project x = Some y"
  then obtain d cs where x: "x = JDict d" and y: "y = JDict cs"
    and m: "migrate_categories (rename_meshes d) = Some cs"
    by (auto simp: migrate_project_def split: json.splits)
  from migrate_categories_fix[OF m] have f: "migrate_categories cs = Some cs"
    and k: "map fst cs = map fst (rename_meshes d)" by simp_all
  from k rename_meshes_no_Meshes[of d] have "\<not> has_key cs ''Meshes''"
    by (simp add: has_key_def)
  then have "rename_meshes cs = cs" by (rule rename_meshes_id)
  with f y show ?thesis by (simp add: migrate_project_def)
qed

lemma migrate_projects_fix:
  "migrate_projects d = Some d' \<Longrightarrow>
   migrate_projects d' = Some d' \<and> map fst d' = map fst d"
  unfolding migrate_projects_def
  by (rule those_map_fix) (auto dest: migrate_project_fix split: if_splits)

text \<open>Replacing the value under \<^verbatim>\<open>naming_conventions\<close> does not disturb the project pass.\<close>

lemma migrate_projects_update_nc:
  "migrate_projects d = Some d \<Longrightarrow>
   migrate_projects (AList.update ''naming_conventions'' v d)
     = Some (AList.update ''naming_conventions'' v d)"
proof (induction d)
  case Nil
  then show ?case by (simp add: migrate_projects_def)
next
  case (Cons p d)
  obtain k w where p: "p = (k, w)" by (cases p)
  from Cons.prems p have tl: "migrate_projects d = Some d"
    by (auto simp: migrate_projects_def split: option.splits if_splits)
  from Cons.prems p have hd: "k \<noteq> ''naming_conventions'' \<Longrightarrow> migrate_project w = Some w"
    by (auto simp: migrate_projects_def split: option.splits if_splits)
  show ?case
  proof (cases "k = ''naming_conventions''")
    case True
    with p tl show ?thesis by (simp add: migrate_projects_def)
  next
    case False
    with p hd Cons.IH[OF tl] show ?thesis by (simp add: migrate_projects_def)
  qed
qed

lemma migrate_conventions_fix:
  "migrate_conventions d = Some d' \<Longrightarrow> migrate_conventions d' = Some d'"
  unfolding migrate_conventions_def
  by (auto split: option.splits json.splits if_splits
           simp: update_conv' rename_meshes_no_Meshes)

lemma migrate_conventions_projects:
  "migrate_conventions d = Some d' \<Longrightarrow> migrate_projects d = Some d \<Longrightarrow>
   migrate_projects d' = Some d'"
  unfolding migrate_conventions_def
  by (auto split: option.splits json.splits if_splits simp: migrate_projects_update_nc)

lemma migrate_fix: "migrate x = Some y \<Longrightarrow> migrate (JDict y) = Some y"
proof -
  assume a: "migrate x = Some y"
  then obtain d d1 where x: "x = JDict d" and p: "migrate_projects d = Some d1"
    and c: "migrate_conventions d1 = Some y"
    by (auto simp: migrate_def split: json.splits option.splits)
  from migrate_projects_fix[OF p] have "migrate_projects d1 = Some d1" by simp
  with c have "migrate_projects y = Some y" by (rule migrate_conventions_projects)
  moreover from c have "migrate_conventions y = Some y" by (rule migrate_conventions_fix)
  ultimately show ?thesis by (simp add: migrate_def)
qed

lemma migrate_empty: "migrate (JDict []) = Some []"
  by (simp add: migrate_def migrate_projects_def migrate_conventions_def)

lemma normalize_idem: "normalize (normalize x) = normalize x"
proof (cases "migrate x")
  case None
  then show ?thesis by (simp add: normalize_def load_assets_from_json_def migrate_empty)
next
  case (Some y)
  then show ?thesis using migrate_fix[OF Some]
    by (simp add: normalize_def load_assets_from_json_def)
qed

lemma is_asset_migrate: "is_asset a \<Longrightarrow> migrate_asset a = a"
  by (cases a) (auto simp: is_asset_def)

lemma canonical_category_fix: "canonical_category v \<Longrightarrow> migrate_category v = Some v"
  by (cases v)
     (auto simp: canonical_category_def migrate_category_def list_all_iff is_asset_migrate map_idI)

lemma canonical_categories_fix:
  "list_all (\<lambda>p. canonical_category (snd p)) cs \<Longrightarrow> migrate_categories cs = Some cs"
  by (induction cs) (auto simp: migrate_categories_def canonical_category_fix)

lemma canonical_project_fix: "canonical_project v \<Longrightarrow> migrate_project v = Some v"
  by (cases v)
     (auto simp: canonical_project_def migrate_project_def rename_meshes_id canonical_categories_fix)

lemma canonical_projects_fix:
  "list_all (\<lambda>p. if fst p = ''naming_conventions'' then canonical_conventions (snd p)
                  else canonical_project (snd p)) d \<Longrightarrow> migrate_projects d = Some d"
  by (induction d) (auto simp: migrate_projects_def canonical_project_fix)

lemma canonical_conventions_fix:
  assumes "list_all (\<lambda>p. if fst p = ''naming_conventions'' then canonical_conventions (snd p)
                          else canonical_project (snd p)) d"
  shows "migrate_conventions d = Some d"
proof (cases "map_of d ''naming_conventions''")
  case None
  then show ?thesis by (simp add: migrate_conventions_def)
next
  case (Some nc)
  then have "(''naming_conventions'', nc) \<in> set d" by (rule map_of_SomeD)
  with assms have "canonical_conventions nc" by (auto simp: list_all_iff)
  with Some show ?thesis
    by (auto simp: migrate_conventions_def canonical_conventions_def split: json.splits)
qed

lemma canonical_fix: "canonical x \<Longrightarrow> normalize x = x"
  by (cases x)
     (auto simp: canonical_def normalize_def load_assets_from_json_def migrate_def
                 canonical_projects_fix canonical_conventions_fix)

text \<open>
  C6. Schema migration is idempotent: for every parsed input \<open>x\<close>, normalising the
  normalised document gives the normalised document again; and a document that is
  already canonical (no \<^verbatim>\<open>Meshes\<close> category, no bare-string assets, no wrapper-form
  category values) is returned unchanged.
\<close>

theorem normalize_idempotent:
  "normalize (normalize x) = normalize x \<and> (canonical x \<longrightarrow> normalize x = x)"
  using normalize_idem canonical_fix by blast

theorem normalize_idempotent_witness:
  "canonical doc_canonical \<and> normalize doc_canonical = doc_canonical
   \<and> normalize (normalize doc_canonical) = normalize doc_canonical"
proof -
  have c: "canonical doc_canonical"
    by (simp add: doc_canonical_def canonical_def canonical_conventions_def
        canonical_project_def canonical_category_def is_asset_def is_str_def has_key_def)
  with normalize_idempotent[of doc_canonical] show ?thesis by simp
qed

section \<open>Properties of identifier resolution\<close>

lemma exn_bind_simps [simp]:
  "exn_bind (Inl e) f = Inl e" "exn_bind (Inr x) f = f x"
  by (simp_all add: exn_bind_def)

text \<open>What \<^verbatim>\<open>get\<close> returns on a typed convention.\<close>

lemma typed_convention_get:
  assumes "typed_convention conventions category"
  shows "dict_get conventions (Some category) (JDict [])
           = Inr (JDict (convention_of conventions category))"
    and "dict_get (JDict (convention_of conventions category)) (Some ''prefix'') (JStr [])
           = Inr (JStr (affix (convention_of conventions category) ''prefix''))"
    and "dict_get (JDict (convention_of conventions category)) (Some ''suffix'') (JStr [])
           = Inr (JStr (affix (convention_of conventions category) ''suffix''))"
proof -
  from assms obtain d where d: "conventions = JDict d"
    by (cases conventions) (simp_all add: typed_convention_def)
  show "dict_get conventions (Some category) (JDict [])
          = Inr (JDict (convention_of conventions category))"
    using assms d
    by (cases "map_of d category")
       (auto simp: typed_convention_def dict_get_def convention_of_def split: json.splits)
  have t: "string_or_absent (convention_of conventions category) ''prefix''
         \<and> string_or_absent (convention_of conventions category) ''suffix''"
    using assms d
    by (cases "map_of d category")
       (auto simp: typed_convention_def convention_of_def string_or_absent_def split: json.splits)
  have g: "\<And>c k. string_or_absent c k \<Longrightarrow>
             dict_get (JDict c) (Some k) (JStr []) = Inr (JStr (affix c k))"
    by (auto simp: string_or_absent_def dict_get_def affix_def split: option.splits json.splits)
  from t g show "dict_get (JDict (convention_of conventions category)) (Some ''prefix'') (JStr [])
           = Inr (JStr (affix (convention_of conventions category) ''prefix''))" by blast
  from t g show "dict_get (JDict (convention_of conventions category)) (Some ''suffix'') (JStr [])
           = Inr (JStr (affix (convention_of conventions category) ''suffix''))" by blast
qed

lemma resolve_plain:
  assumes "typed_convention conventions category"
    and "\<not> (category = ''Textures'' \<and> has_key (convention_of conventions category) ''suffixes'')"
  shows "resolve_db_name fmt conventions (Some category) display_name variant =
           Inr (Some (affix (convention_of conventions category) ''prefix''
                        @ remove_spaces display_name
                        @ affix (convention_of conventions category) ''suffix''))"
proof -
  from assms(2) have
    "choose_suffix (Some category) (JDict (convention_of conventions category)) sfx variant
       = Inr (Some sfx)" for sfx
    by (auto simp: choose_suffix_def)
  then show ?thesis
    by (simp add: resolve_db_name_def typed_convention_get[OF assms(1)] py_format_def)
qed

lemma resolve_textures_selected:
  assumes "typed_convention conventions ''Textures''"
    and "map_of (convention_of conventions ''Textures'') ''suffixes'' = Some (JDict sd)"
    and "map_of sd label = Some (JStr sfx)"
  shows "resolve_db_name fmt conventions (Some ''Textures'') display_name (label, True) =
           Inr (Some (affix (convention_of conventions ''Textures'') ''prefix''
                        @ remove_spaces display_name @ sfx))"
proof -
  from assms(2,3) have
    "choose_suffix (Some ''Textures'') (JDict (convention_of conventions ''Textures'')) s0 (label, True)
       = Inr (Some (JStr sfx))" for s0
    by (simp add: choose_suffix_def has_key_map_of subscript_def)
  then show ?thesis
    by (simp add: resolve_db_name_def typed_convention_get[OF assms(1)] py_format_def)
qed

lemma resolve_textures_cancelled:
  assumes "conventions = JDict d" and "map_of d ''Textures'' = Some (JDict convention)"
    and "map_of convention ''suffixes'' = Some (JDict sd)"
  shows "resolve_db_name fmt conventions (Some ''Textures'') display_name (label, False) = Inr None"
  using assms
  by (simp add: resolve_db_name_def dict_get_def choose_suffix_def has_key_map_of subscript_def
      split: option.splits)

lemma typed_conventions_example:
  "typed_convention conventions_example ''Static Meshes''"
  "typed_convention conventions_example ''Textures''"
  "typed_convention conventions_example ''Master Textures''"
  by (simp_all add: typed_convention_def conventions_example_def string_or_absent_def)

lemma convention_of_example:
  "convention_of conventions_example ''Static Meshes'' = [(''prefix'', JStr ''SM_''), (''suffix'', JStr [])]"
  "convention_of conventions_example ''Textures''
     = [(''prefix'', JStr ''T_''), (''suffixes'', JDict [(''Diffuse'', JStr ''_D'')])]"
  "convention_of conventions_example ''Master Textures'' = [(''suffixes'', JDict [(''Diffuse'', JStr ''_D'')])]"
  by (simp_all add: convention_of_def conventions_example_def)

text \<open>
  C3, as it is stated: for every display name that is non-empty after trimming, the
  identifier is prefix + removeWhitespace(displayName) + suffix. It fails for a display
  name with a tab in it: \<^verbatim>\<open>replace(' ', '')\<close> removes the space character only.
\<close>

theorem resolve_removeWhitespace_counterexample:
  "strip hero_tab_sword \<noteq> [] \<and> typed_convention conventions_example ''Static Meshes'' \<and>
   resolve_db_name no_format conventions_example (Some ''Static Meshes'') hero_tab_sword ([], False)
     \<noteq> Inr (Some (spec_identifier
                    (affix (convention_of conventions_example ''Static Meshes'') ''prefix'')
                    hero_tab_sword
                    (affix (convention_of conventions_example ''Static Meshes'') ''suffix'')))"
  by (simp add: resolve_db_name_def conventions_example_def dict_get_def choose_suffix_def
      py_format_def remove_spaces_def hero_tab_sword_def strip_def is_py_space_def
      spec_identifier_def removeWhitespace_def affix_def convention_of_def
      typed_convention_def string_or_absent_def)

text \<open>
  C3, amended. For every category and every display name the resolved identifier is
  prefix + the display name with every space character (U+0020) removed + suffix, where
  prefix and suffix are the strings of the category's convention and an absent
  convention, prefix or suffix is empty; for the category \<^verbatim>\<open>Textures\<close> with a \<^verbatim>\<open>suffixes\<close>
  mapping the suffix is the one of the selected variant. With the convention
  \<^verbatim>\<open>{"prefix": "SM_", "suffix": ""}\<close> the display name \<^verbatim>\<open>Hero Sword\<close> gives \<^verbatim>\<open>SM_HeroSword\<close>.
\<close>

theorem resolve_identifier:
  "(typed_convention conventions category \<and>
    \<not> (category = ''Textures'' \<and> has_key (convention_of conventions category) ''suffixes'')
      \<longrightarrow> resolve_db_name fmt conventions (Some category) display_name variant =
            Inr (Some (affix (convention_of conventions category) ''prefix''
                         @ remove_spaces display_name
                         @ affix (convention_of conventions category) ''suffix'')))
   \<and> (typed_convention conventions ''Textures'' \<and>
      map_of (convention_of conventions ''Textures'') ''suffixes'' = Some (JDict sd) \<and>
      map_of sd label = Some (JStr sfx)
      \<longrightarrow> resolve_db_name fmt conventions (Some ''Textures'') texture_name (label, True) =
            Inr (Some (affix (convention_of conventions ''Textures'') ''prefix''
                         @ remove_spaces texture_name @ sfx)))
   \<and> resolve_db_name no_format conventions_example (Some ''Static Meshes'') ''Hero Sword'' ([], False)
       = Inr (Some ''SM_HeroSword'')"
proof (intro conjI impI)
  show "resolve_db_name no_format conventions_example (Some ''Static Meshes'') ''Hero Sword'' ([], False)
       = Inr (Some ''SM_HeroSword'')"
    by (simp add: resolve_plain typed_conventions_example convention_of_example affix_def
        remove_spaces_def)
qed (auto intro: resolve_plain resolve_textures_selected)

theorem resolve_identifier_witness:
  "typed_convention conventions_example ''Static Meshes''
   \<and> \<not> (''Static Meshes'' = ''Textures''
        \<and> has_key (convention_of conventions_example ''Static Meshes'') ''suffixes'')
   \<and> resolve_db_name no_format conventions_example (Some ''Static Meshes'') hero_tab_sword ([], False)
       = Inr (Some (''SM_Hero'' @ [CHR 0x09] @ ''Sword''))
   \<and> typed_convention conventions_example ''Textures''
   \<and> map_of (convention_of conventions_example ''Textures'') ''suffixes''
       = Some (JDict [(''Diffuse'', JStr ''_D'')])
   \<and> map_of [(''Diffuse'', JStr ''_D'')] ''Diffuse'' = Some (JStr ''_D'')
   \<and> resolve_db_name no_format conventions_example (Some ''Textures'') ''Rock Diffuse'' (''Diffuse'', True)
       = Inr (Some ''T_RockDiffuse_D'')"
  using resolve_identifier[where conventions = conventions_example
          and category = "''Static Meshes''" and fmt = no_format
          and display_name = hero_tab_sword and variant = "([], False)"
          and sd = "[(''Diffuse'', JStr ''_D'')]" and label = "''Diffuse''" and sfx = "''_D''"
          and texture_name = "''Rock Diffuse''"]
  by (simp add: typed_conventions_example convention_of_example affix_def remove_spaces_def
      hero_tab_sword_def)

text \<open>
  C4, as it is stated: every category whose convention has a \<^verbatim>\<open>suffixes\<close> mapping needs a
  variant selection. It fails for \<^verbatim>\<open>Master Textures\<close>: without any selection the
  identifier is built, with the empty suffix.
\<close>

theorem variant_required_counterexample:
  "variant_form (convention_of conventions_example ''Master Textures'') \<and>
   resolve_db_name no_format conventions_example (Some ''Master Textures'') ''Rock'' ([], False)
     = Inr (Some ''Rock'')"
  by (simp add: resolve_db_name_def conventions_example_def dict_get_def choose_suffix_def
      py_format_def remove_spaces_def variant_form_def convention_of_def)

section \<open>The reserved project\<close>

lemma exn_bind_Inr_iff: "exn_bind r f = Inr y \<longleftrightarrow> (\<exists>x. r = Inr x \<and> f x = Inr y)"
  by (cases r) simp_all

lemma save_fields [simp]:
  "assets_hierarchy (snd (save_assets_to_json s)) = assets_hierarchy s"
  "naming_conventions (snd (save_assets_to_json s)) = naming_conventions s"
  "projects (snd (save_assets_to_json s)) = projects s"
  "selected_project (snd (save_assets_to_json s)) = selected_project s"
  "selected_category (snd (save_assets_to_json s)) = selected_category s"
  "hou_version (snd (save_assets_to_json s)) = hou_version s"
  "config_json (snd (save_assets_to_json s)) = Some (document s)"
  by (simp_all add: save_assets_to_json_def split: prod.splits)

lemma put_selected_fields [simp]:
  "naming_conventions (put_selected s xs) = naming_conventions s"
  "projects (put_selected s xs) = projects s"
  "selected_project (put_selected s xs) = selected_project s"
  "selected_category (put_selected s xs) = selected_category s"
  "hou_version (put_selected s xs) = hou_version s"
  "config_json (put_selected s xs) = config_json s"
  "root_dir (put_selected s xs) = root_dir s"
  by (simp_all add: put_selected_def split: option.splits)

lemma update_present_keys: "map_of h k = Some v \<Longrightarrow> map fst (AList.update k w h) = map fst h"
  by (induction h) (auto split: if_splits)

lemma put_assets_keys [simp]: "map fst (put_assets h p c xs) = map fst h"
  by (simp add: put_assets_def update_present_keys split: option.splits json.splits)

lemma put_selected_keys [simp]:
  "map fst (assets_hierarchy (put_selected s xs)) = map fst (assets_hierarchy s)"
  by (simp add: put_selected_def split: option.splits)

lemma inv_cong: "map fst (assets_hierarchy s') = map fst (assets_hierarchy s) \<Longrightarrow> projects s' = projects s
   \<Longrightarrow> inv s \<Longrightarrow> inv s'"
  by (simp add: inv_def has_key_def)

lemma save_eq: "save_assets_to_json s = (m, s') \<Longrightarrow> s' = snd (save_assets_to_json s)"
  by simp

lemma inv_save: "inv (snd (save_assets_to_json s)) = inv s"
  by (simp add: inv_def)

lemma inv_add_project: "inv s \<Longrightarrow> inv (snd (add_project s text))"
  by (auto simp: add_project_def Let_def inv_def distinct_update dom_update has_key_def)

lemma list_index_less: "x \<in> set xs \<Longrightarrow> list_index xs x < length xs \<and> xs ! list_index xs x = x"
  unfolding list_index_def
  by (induction xs) auto

lemma distinct_rename:
  assumes "distinct xs" "new \<notin> set xs" "old \<in> set xs"
  shows "distinct (xs[list_index xs old := new])"
    and "m \<in> set xs \<Longrightarrow> m \<noteq> old \<Longrightarrow> m \<in> set (xs[list_index xs old := new])"
  using assms unfolding list_index_def
  by (induction xs) (auto dest: set_update_subset_insert[THEN subsetD])

lemma dict_rename_distinct:
  "distinct (map fst h) \<Longrightarrow> distinct (map fst (AList.update new v (AList.delete old h)))"
  by (intro distinct_update distinct_delete)

lemma dict_rename_has_key:
  "has_key h k \<Longrightarrow> k \<noteq> old \<Longrightarrow> has_key (AList.update new v (AList.delete old h)) k"
  by (simp add: has_key_def update_keys delete_keys)

lemma inv_rename_project:
  assumes "rename_project s selected dialog os_ok = Inr (m, s')" and "inv s"
  shows "inv s'"
proof (cases "s' = s")
  case True with assms show ?thesis by simp
next
  case False
  with assms(1) obtain old new cats r1 where old: "old \<noteq> Master_Assets" "old \<in> set (projects s)"
    and new: "new \<notin> set (projects s)" "new \<noteq> Master_Assets"
    and s': "s' = snd (save_assets_to_json
                                 (s\<lparr>projects := (projects s)[list_index (projects s) old := new],
                                    assets_hierarchy :=
                                      AList.update new cats
                                        (AList.delete old (assets_hierarchy s)),
                                    root_dir := r1\<rparr>))"
    by (auto simp: rename_project_def Let_def split: option.splits if_splits prod.splits
             dest!: save_eq)
  from assms(2) old new show ?thesis unfolding s' inv_save
    by (simp add: inv_def distinct_rename dict_rename_distinct dict_rename_has_key)
qed

lemma inv_delete_project:
  assumes "delete_project s selected confirm = Inr (m, s')" and "inv s"
  shows "inv s'"
proof (cases "s' = s")
  case True with assms show ?thesis by simp
next
  case False
  with assms(1) obtain name where "name \<noteq> Master_Assets"
    and s': "s' = snd (save_assets_to_json
                       (s\<lparr>assets_hierarchy := AList.delete name (assets_hierarchy s),
                          projects := remove1 name (projects s)\<rparr>))"
    by (auto simp: delete_project_def split: option.splits if_splits prod.splits dest!: save_eq)
  with assms(2) show ?thesis unfolding s' inv_save
    by (auto simp: inv_def distinct_delete delete_keys distinct_removeAll has_key_def)
qed


lemma houdini_step_fields:
  assumes "houdini_step houdini s = Inr (hm, s2)"
  shows "assets_hierarchy s2 = assets_hierarchy s \<and> projects s2 = projects s
    \<and> naming_conventions s2 = naming_conventions s \<and> config_json s2 = config_json s
    \<and> selected_project s2 = selected_project s \<and> selected_category s2 = selected_category s"
  using assms
  by (auto simp: houdini_step_def exn_bind_Inr_iff split: option.splits)

lemma asset_change_refl [simp]: "asset_change s s"
  by (simp add: asset_change_def)

lemma asset_change_save_put [simp]:
  "asset_change s (snd (save_assets_to_json (put_selected s xs)))"
  by (simp add: asset_change_def)

lemma exn_bindE:
  assumes "exn_bind r f = Inr y"
  obtains x where "r = Inr x" and "f x = Inr y"
  using assms by (cases r) simp_all

lemma create_asset_change:
  assumes "create_asset_clicked fmt s name_dialog variant houdini = Inr (m, s')"
  shows "asset_change s s'"
  using assms unfolding create_asset_clicked_def
  by (auto simp: case_prod_beta asset_change_def
           elim!: exn_bindE split: if_splits option.splits json.splits
           dest!: houdini_step_fields)

lemma put_selected_root [simp]:
  "put_selected (s\<lparr>root_dir := r\<rparr>) xs = (put_selected s xs)\<lparr>root_dir := r\<rparr>"
  by (simp add: put_selected_def split: option.splits)

lemma apply_rename_change:
  assumes "apply_rename s xs i n new old file_ok folder_ok = Inr (m, s')"
  shows "asset_change s s'"
  using assms unfolding apply_rename_def
  by (auto simp: case_prod_beta asset_change_def elim!: exn_bindE)

lemma check_and_rename_change:
  assumes "check_and_rename s xs i n new file_ok folder_ok = Inr (m, s')"
  shows "asset_change s s'"
proof -
  from assms consider "s' = s"
    | old where "apply_rename s xs i n new old file_ok folder_ok = Inr (m, s')"
    unfolding check_and_rename_def
    by (auto elim!: exn_bindE split: if_splits json.splits)
  then show ?thesis
    by cases (simp_all add: apply_rename_change)
qed

lemma edit_asset_change:
  assumes "edit_asset_clicked fmt s asset_name name_dialog variant file_ok folder_ok = Inr (m, s')"
  shows "asset_change s s'"
proof -
  from assms consider "s' = s"
    | xs i n new where "check_and_rename s xs i n new file_ok folder_ok = Inr (m, s')"
    unfolding edit_asset_clicked_def
    by (auto elim!: exn_bindE split: if_splits option.splits)
  then show ?thesis
    by cases (simp_all add: check_and_rename_change)
qed

lemma delete_asset_change:
  assumes "delete_asset_clicked s asset_name confirm = Inr (m, s')"
  shows "asset_change s s'"
  using assms unfolding delete_asset_clicked_def
  by (auto simp: case_prod_beta asset_change_def
           elim!: exn_bindE split: if_splits option.splits)

lemma selection_change:
  "enter_selected_project s selected = Inr (m, s') \<Longrightarrow> asset_change s s'"
  "view_comp_assets s = Inr (m, s') \<Longrightarrow> asset_change s s'"
  "category_button_clicked s category = Inr (m, s') \<Longrightarrow> asset_change s s'"
  by (auto simp: enter_selected_project_def view_comp_assets_def category_button_clicked_def
        back_to_categories_def asset_change_def
      elim!: exn_bindE split: option.splits json.splits)

lemma inv_asset_change: "asset_change s s' \<Longrightarrow> inv s \<Longrightarrow> inv s'"
  by (simp add: asset_change_def inv_def has_key_def)

lemma inv_step:
  assumes "step fmt s a = Inr (m, s')" and "inv s"
  shows "inv s'"
proof (cases a)
  case (Add_project input)
  with assms inv_add_project[of s input] show ?thesis by auto
next
  case (Rename_project selected dialog os_ok)
  with assms show ?thesis by (auto intro: inv_rename_project)
next
  case (Delete_project selected confirm)
  with assms show ?thesis by (auto intro: inv_delete_project)
next
  case (Enter_selected_project selected)
  with assms show ?thesis by (auto intro: inv_asset_change selection_change)
next
  case View_comp_assets
  with assms show ?thesis by (auto intro: inv_asset_change selection_change)
next
  case (Category_button_clicked category)
  with assms show ?thesis by (auto intro: inv_asset_change selection_change)
next
  case (Create_asset_clicked name_dialog variant houdini)
  with assms show ?thesis by (auto intro: inv_asset_change create_asset_change)
next
  case (Edit_asset_clicked asset_name name_dialog variant file_ok folder_ok)
  with assms show ?thesis by (auto intro: inv_asset_change edit_asset_change)
next
  case (Delete_asset_clicked asset_name confirm)
  with assms show ?thesis by (auto intro: inv_asset_change delete_asset_change)
qed


lemma migrate_conventions_keys:
  "migrate_conventions d = Some d' \<Longrightarrow> map fst d' = map fst d"
  unfolding migrate_conventions_def
  by (auto split: option.splits json.splits if_splits simp: update_present_keys)

lemma migrate_keys:
  assumes "migrate (JDict d) = Some d'"
  shows "map fst d' = map fst d"
proof -
  from assms obtain d1 where "migrate_projects d = Some d1" "migrate_conventions d1 = Some d'"
    by (auto simp: migrate_def split: option.splits)
  with migrate_projects_fix[of d d1] migrate_conventions_keys[of d1 d'] show ?thesis by simp
qed

lemma load_distinct:
  assumes "\<forall>j. file = Some j \<longrightarrow> wf_json j"
  shows "distinct (map fst (snd (load_assets_from_json file)))"
proof (cases "file")
  case None
  then show ?thesis by (simp add: load_assets_from_json_def)
next
  case (Some j)
  show ?thesis
  proof (cases "migrate j")
    case None
    with Some show ?thesis by (simp add: load_assets_from_json_def)
  next
    case (Some d')
    then obtain d where j: "j = JDict d" by (cases j) (simp_all add: migrate_def)
    from assms \<open>file = Some j\<close> j have "distinct (map fst d)" by simp
    with migrate_keys[of d d'] Some j \<open>file = Some j\<close> show ?thesis
      by (simp add: load_assets_from_json_def)
  qed
qed

lemma inv_init:
  assumes "\<forall>j. file = Some j \<longrightarrow> wf_json j"
  shows "inv (snd (init file root))"
proof -
  obtain msgs data where l: "load_assets_from_json file = (msgs, data)"
    by (cases "load_assets_from_json file")
  with load_distinct[OF assms] have d: "distinct (map fst data)" by simp
  then have d0: "distinct (map fst (AList.delete ''naming_conventions'' data))"
    by (rule distinct_delete)
  show ?thesis
    using d0 l
    by (auto simp: init_def Let_def inv_def has_key_def distinct_update dom_update)
qed

lemma reachable_inv: "reachable fmt s \<Longrightarrow> inv s"
  by (induction rule: reachable.induct) (auto intro: inv_init inv_step)

lemma count_list_distinct: "distinct xs \<Longrightarrow> x \<in> set xs \<Longrightarrow> count_list xs x = 1"
  by (induction xs) (auto simp: count_list_0_iff)

lemma master_assets_after_init: "has_key (assets_hierarchy (snd (init file root))) Master_Assets"
  by (auto simp: init_def Let_def has_key_def dom_update split: prod.splits)

text \<open>
  C1. The project \<^verbatim>\<open>Master Assets\<close> is in the document after initialisation. Creating a
  project of that name, renaming the project, renaming another project to that name
  and deleting the project all fail with their warning and leave the whole state, the
  document, the file and the tree, as it was. In every state reachable through the
  operations the name occurs exactly once among the projects.
\<close>

theorem master_assets_reserved:
  "has_key (assets_hierarchy (snd (init file root))) Master_Assets
   \<and> (strip input = Master_Assets \<longrightarrow> add_project s input = ([Warn_reserved_name], s))
   \<and> rename_project s (Some Master_Assets) dialog os_ok = Inr ([Warn_cannot_rename], s)
   \<and> (old_name \<noteq> Master_Assets \<and> new_name \<noteq> [] \<and> strip new_name = Master_Assets \<longrightarrow>
        rename_project s (Some old_name) (new_name, True) os_ok = Inr ([Warn_exists_or_reserved], s))
   \<and> delete_project s (Some Master_Assets) confirm = Inr ([Warn_cannot_delete], s)
   \<and> (reachable fmt t \<longrightarrow>
        count_list (map fst (assets_hierarchy t)) Master_Assets = 1
        \<and> count_list (projects t) Master_Assets = 1)"
proof (intro conjI impI)
  show "has_key (assets_hierarchy (snd (init file root))) Master_Assets"
    by (rule master_assets_after_init)
  show "add_project s input = ([Warn_reserved_name], s)" if "strip input = Master_Assets"
    using that by (simp add: add_project_def Master_Assets_def)
  show "rename_project s (Some Master_Assets) dialog os_ok = Inr ([Warn_cannot_rename], s)"
    by (simp add: rename_project_def)
  show "rename_project s (Some old_name) (new_name, True) os_ok = Inr ([Warn_exists_or_reserved], s)"
    if "old_name \<noteq> Master_Assets \<and> new_name \<noteq> [] \<and> strip new_name = Master_Assets"
    using that by (simp add: rename_project_def Master_Assets_def)
  show "delete_project s (Some Master_Assets) confirm = Inr ([Warn_cannot_delete], s)"
    by (simp add: delete_project_def)
  assume "reachable fmt t"
  then have "inv t" by (rule reachable_inv)
  then show "count_list (map fst (assets_hierarchy t)) Master_Assets = 1"
    and "count_list (projects t) Master_Assets = 1"
    by (simp_all add: inv_def has_key_def count_list_distinct)
qed

lemma state_initial_eq:
  "state_initial =
     \<lparr>assets_hierarchy = [(Master_Assets, master_categories)],
      naming_conventions = JDict [],
      projects = [Master_Assets],
      selected_project = None, selected_category = None,
      config_json = None, root_dir = [], hou_version = False\<rparr>"
  by (simp add: state_initial_def init_def load_assets_from_json_def has_key_def)

theorem master_assets_reserved_witness:
  "strip '' Master Assets '' = Master_Assets
   \<and> add_project state_initial '' Master Assets '' = ([Warn_reserved_name], state_initial)
   \<and> ''Show A'' \<noteq> Master_Assets \<and> ''Master Assets '' \<noteq> [] \<and> strip ''Master Assets '' = Master_Assets
   \<and> rename_project state_initial (Some ''Show A'') (''Master Assets '', True) True
        = Inr ([Warn_exists_or_reserved], state_initial)
   \<and> reachable no_format state_initial
   \<and> count_list (map fst (assets_hierarchy state_initial)) Master_Assets = 1
   \<and> count_list (projects state_initial) Master_Assets = 1"
proof -
  have r: "reachable no_format state_initial"
    unfolding state_initial_def by (rule reachable_init) simp
  have st: "strip '' Master Assets '' = Master_Assets" "strip ''Master Assets '' = Master_Assets"
    by (simp_all add: strip_def is_py_space_def Master_Assets_def)
  have ne: "''Show A'' \<noteq> Master_Assets" by (simp add: Master_Assets_def)
  from master_assets_reserved[where input = "'' Master Assets ''" and s = state_initial
      and old_name = "''Show A''" and new_name = "''Master Assets ''" and os_ok = True
      and fmt = no_format and t = state_initial] r st ne
  show ?thesis by simp
qed

lemma create_cancelled:
  assumes "resolve_db_name fmt (naming_conventions s) (selected_category s) (fst name_dialog) variant = Inr None"
  shows "create_asset_clicked fmt s name_dialog variant houdini = Inr ([], s)"
  using assms by (simp add: create_asset_clicked_def)

lemma edit_cancelled:
  assumes "get_assets (assets_hierarchy s) (selected_project s) (selected_category s) = Inr assets"
    and "iterate assets = Inr xs"
    and "find_asset_by_display_name xs asset_name = Inr (Some i)"
    and "resolve_db_name fmt (naming_conventions s) (selected_category s) (fst name_dialog) variant = Inr None"
  shows "edit_asset_clicked fmt s asset_name name_dialog variant file_ok folder_ok = Inr ([], s)"
  using assms by (simp add: edit_asset_clicked_def)

text \<open>
  C4, amended. The variant selection is required for the category named \<^verbatim>\<open>Textures\<close>
  only: when its convention has a \<^verbatim>\<open>suffixes\<close> mapping and no variant is selected (the
  dialog is cancelled), no identifier is resolved and creating or renaming an asset
  returns without any change and without picking a default suffix. For a category of
  any other name a \<^verbatim>\<open>suffixes\<close> mapping is ignored and the identifier is built from the
  plain \<^verbatim>\<open>prefix\<close> and \<^verbatim>\<open>suffix\<close>, empty when absent.
\<close>

theorem variant_selection_for_Textures:
  "(naming_conventions s = JDict d \<and> map_of d ''Textures'' = Some (JDict convention)
    \<and> map_of convention ''suffixes'' = Some (JDict sd) \<and> selected_category s = Some ''Textures''
    \<longrightarrow> resolve_db_name fmt (naming_conventions s) (Some ''Textures'') display_name (label, False) = Inr None
       \<and> create_asset_clicked fmt s (display_name, ok) (label, False) houdini = Inr ([], s)
       \<and> (get_assets (assets_hierarchy s) (selected_project s) (selected_category s) = Inr assets
          \<and> iterate assets = Inr xs \<and> find_asset_by_display_name xs asset_name = Inr (Some i)
          \<longrightarrow> edit_asset_clicked fmt s asset_name (display_name, ok) (label, False) file_ok folder_ok
                = Inr ([], s)))
   \<and> (typed_convention conventions category \<and> category \<noteq> ''Textures''
      \<longrightarrow> resolve_db_name fmt conventions (Some category) other_name variant =
            Inr (Some (affix (convention_of conventions category) ''prefix''
                         @ remove_spaces other_name
                         @ affix (convention_of conventions category) ''suffix'')))"
proof (intro conjI impI)
  assume a: "naming_conventions s = JDict d \<and> map_of d ''Textures'' = Some (JDict convention)
    \<and> map_of convention ''suffixes'' = Some (JDict sd) \<and> selected_category s = Some ''Textures''"
  then have r: "resolve_db_name fmt (naming_conventions s) (Some ''Textures'') n (label, False) = Inr None" for n
    by (auto intro: resolve_textures_cancelled)
  from r show "resolve_db_name fmt (naming_conventions s) (Some ''Textures'') display_name (label, False) = Inr None" .
  from r a show "create_asset_clicked fmt s (display_name, ok) (label, False) houdini = Inr ([], s)"
    by (simp add: create_cancelled)
  assume "get_assets (assets_hierarchy s) (selected_project s) (selected_category s) = Inr assets
          \<and> iterate assets = Inr xs \<and> find_asset_by_display_name xs asset_name = Inr (Some i)"
  with r a show "edit_asset_clicked fmt s asset_name (display_name, ok) (label, False) file_ok folder_ok
                = Inr ([], s)"
    by (simp add: edit_cancelled)
next
  assume "typed_convention conventions category \<and> category \<noteq> ''Textures''"
  then show "resolve_db_name fmt conventions (Some category) other_name variant =
            Inr (Some (affix (convention_of conventions category) ''prefix''
                         @ remove_spaces other_name
                         @ affix (convention_of conventions category) ''suffix''))"
    by (simp add: resolve_plain)
qed

lemma state_textures_assets:
  "get_assets (assets_hierarchy state_textures) (selected_project state_textures)
     (selected_category state_textures) = Inr (JList [new_asset ''Rock Diffuse'' ''T_RockDiffuse_D''])"
  by (simp add: state_textures_def get_assets_def subscript_def unwrap_def Master_Assets_def)

theorem variant_selection_for_Textures_witness:
  "naming_conventions state_textures = conventions_example
   \<and> selected_category state_textures = Some ''Textures''
   \<and> create_asset_clicked no_format state_textures (''Rock Normal'', True) ([], False) None
       = Inr ([], state_textures)
   \<and> edit_asset_clicked no_format state_textures ''Rock Diffuse'' (''Rock Normal'', True) ([], False) True True
       = Inr ([], state_textures)
   \<and> typed_convention conventions_example ''Master Textures'' \<and> ''Master Textures'' \<noteq> ''Textures''
   \<and> resolve_db_name no_format conventions_example (Some ''Master Textures'') ''Rock'' ([], False)
       = Inr (Some ''Rock'')"
proof -
  have f: "find_asset_by_display_name [new_asset ''Rock Diffuse'' ''T_RockDiffuse_D''] ''Rock Diffuse'' = Inr (Some 0)"
    by (simp add: new_asset_def subscript_def)
  from variant_selection_for_Textures[where s = state_textures
      and d = "[(''Static Meshes'', JDict [(''prefix'', JStr ''SM_''), (''suffix'', JStr [])]),
            (''Textures'', JDict [(''prefix'', JStr ''T_''), (''suffixes'', JDict [(''Diffuse'', JStr ''_D'')])]),
            (''Master Textures'', JDict [(''suffixes'', JDict [(''Diffuse'', JStr ''_D'')])])]"
      and convention = "[(''prefix'', JStr ''T_''), (''suffixes'', JDict [(''Diffuse'', JStr ''_D'')])]"
      and sd = "[(''Diffuse'', JStr ''_D'')]" and fmt = no_format and display_name = "''Rock Normal''"
      and label = "[]" and ok = True and houdini = None
      and assets = "JList [new_asset ''Rock Diffuse'' ''T_RockDiffuse_D'']"
      and xs = "[new_asset ''Rock Diffuse'' ''T_RockDiffuse_D'']" and asset_name = "''Rock Diffuse''"
      and i = 0 and file_ok = True and folder_ok = True
      and conventions = conventions_example and category = "''Master Textures''"
      and other_name = "''Rock''" and variant = "([], False)"]
    f state_textures_assets
  show ?thesis
    by (simp add: typed_conventions_example convention_of_example affix_def remove_spaces_def
        iterate_def)
       (simp add: state_textures_def conventions_example_def)
qed

section \<open>The naming conventions are never written\<close>

lemma persisted_refl [simp]: "persisted s s"
  by (simp add: persisted_def)

lemma document_cong:
  "assets_hierarchy s' = assets_hierarchy s \<Longrightarrow> naming_conventions s' = naming_conventions s
   \<Longrightarrow> document s' = document s"
  by (simp add: document_def)

lemma persisted_save:
  "naming_conventions t = naming_conventions s \<Longrightarrow> persisted s (snd (save_assets_to_json t))"
  by (simp add: persisted_def document_def)

lemma persisted_trans: "persisted s t \<Longrightarrow> persisted t u \<Longrightarrow> persisted s u"
  by (auto simp: persisted_def document_def)

lemma persisted_add_project: "persisted s (snd (add_project s input))"
  by (simp add: add_project_def Let_def persisted_save) (simp add: persisted_def)

lemma persisted_rename_project:
  assumes "rename_project s selected dialog os_ok = Inr (m, s')"
  shows "persisted s s'"
  using assms unfolding rename_project_def
  by (auto simp: Let_def case_prod_beta persisted_save split: option.splits if_splits)

lemma persisted_delete_project:
  assumes "delete_project s selected confirm = Inr (m, s')"
  shows "persisted s s'"
  using assms unfolding delete_project_def
  by (auto simp: case_prod_beta persisted_save split: option.splits if_splits)

lemma persisted_houdini:
  assumes "houdini_step houdini t = Inr (hm, s')" and "persisted s t"
  shows "persisted s s'"
proof -
  from houdini_step_fields[OF assms(1)] have "document s' = document t"
    by (simp add: document_def)
  with houdini_step_fields[OF assms(1)] assms(2) show ?thesis
    by (auto simp: persisted_def)
qed

lemma persisted_create:
  assumes "create_asset_clicked fmt s name_dialog variant houdini = Inr (m, s')"
  shows "persisted s s'"
proof -
  from assms consider "s' = s"
    | xs hm where "houdini_step houdini (snd (save_assets_to_json (put_selected s xs))) = Inr (hm, s')"
    unfolding create_asset_clicked_def
    by (auto simp: case_prod_beta elim!: exn_bindE split: if_splits option.splits json.splits)
  then show ?thesis
  proof cases
    case 1
    then show ?thesis by simp
  next
    case 2
    then show ?thesis by (rule persisted_houdini) (simp add: persisted_save)
  qed
qed

lemma persisted_apply_rename:
  assumes "apply_rename s xs i n new old file_ok folder_ok = Inr (m, s')"
  shows "persisted s s'"
  using assms unfolding apply_rename_def
  by (auto simp: case_prod_beta persisted_save elim!: exn_bindE)

lemma persisted_check_and_rename:
  assumes "check_and_rename s xs i n new file_ok folder_ok = Inr (m, s')"
  shows "persisted s s'"
proof -
  from assms consider "s' = s"
    | old where "apply_rename s xs i n new old file_ok folder_ok = Inr (m, s')"
    unfolding check_and_rename_def
    by (auto elim!: exn_bindE split: if_splits json.splits)
  then show ?thesis
    by cases (simp_all add: persisted_apply_rename)
qed

lemma persisted_edit:
  assumes "edit_asset_clicked fmt s asset_name name_dialog variant file_ok folder_ok = Inr (m, s')"
  shows "persisted s s'"
proof -
  from assms consider "s' = s"
    | xs i n new where "check_and_rename s xs i n new file_ok folder_ok = Inr (m, s')"
    unfolding edit_asset_clicked_def
    by (auto elim!: exn_bindE split: if_splits option.splits)
  then show ?thesis
    by cases (simp_all add: persisted_check_and_rename)
qed

lemma persisted_delete_asset:
  assumes "delete_asset_clicked s asset_name confirm = Inr (m, s')"
  shows "persisted s s'"
  using assms unfolding delete_asset_clicked_def
  by (auto simp: case_prod_beta persisted_save
           elim!: exn_bindE split: if_splits option.splits)

lemma persisted_selection:
  "enter_selected_project s selected = Inr (m, s') \<Longrightarrow> persisted s s'"
  "view_comp_assets s = Inr (m, s') \<Longrightarrow> persisted s s'"
  "category_button_clicked s category = Inr (m, s') \<Longrightarrow> persisted s s'"
  by (auto simp: enter_selected_project_def view_comp_assets_def category_button_clicked_def
        back_to_categories_def persisted_def
      elim!: exn_bindE split: option.splits json.splits)

lemma persisted_step:
  assumes "step fmt s a = Inr (m, s')"
  shows "persisted s s'"
proof (cases a)
  case (Add_project input)
  with assms persisted_add_project[of s input] show ?thesis by auto
next
  case (Rename_project selected dialog os_ok)
  with assms show ?thesis by (auto intro: persisted_rename_project)
next
  case (Delete_project selected confirm)
  with assms show ?thesis by (auto intro: persisted_delete_project)
next
  case (Enter_selected_project selected)
  with assms show ?thesis by (auto intro: persisted_selection)
next
  case View_comp_assets
  with assms show ?thesis by (auto intro: persisted_selection)
next
  case (Category_button_clicked category)
  with assms show ?thesis by (auto intro: persisted_selection)
next
  case (Create_asset_clicked name_dialog variant houdini)
  with assms show ?thesis by (auto intro: persisted_create)
next
  case (Edit_asset_clicked asset_name name_dialog variant file_ok folder_ok)
  with assms show ?thesis by (auto intro: persisted_edit)
next
  case (Delete_asset_clicked asset_name confirm)
  with assms show ?thesis by (auto intro: persisted_delete_asset)
qed

lemma persisted_run: "run fmt s acts = Inr s' \<Longrightarrow> persisted s s'"
proof (induction acts arbitrary: s)
  case Nil
  then show ?case by simp
next
  case (Cons a acts)
  then obtain m t where st: "step fmt s a = Inr (m, t)" and r: "run fmt t acts = Inr s'"
    by (auto split: sum.splits)
  from persisted_step[OF st] Cons.IH[OF r] show ?case by (rule persisted_trans)
qed

lemma document_conventions:
  "subscript (document s) ''naming_conventions'' = Inr (naming_conventions s)"
  by (simp add: document_def subscript_def update_conv')

lemma delete_no_key: "\<not> has_key (AList.delete k d) k"
  by (simp add: has_key_def delete_keys)

lemma update_other_key: "k \<noteq> k' \<Longrightarrow> has_key (AList.update k' v d) k = has_key d k"
  by (auto simp: has_key_def dom_update)

lemma init_separates:
  "\<not> has_key (assets_hierarchy (snd (init file root))) ''naming_conventions''"
  by (simp add: init_def Let_def delete_no_key update_other_key Master_Assets_def
      split: prod.splits)

text \<open>
  C10. The naming conventions are taken out of the hierarchy when the document is
  loaded, no sequence of operations changes them in memory, and every save writes them
  back as they are under the key \<^verbatim>\<open>naming_conventions\<close>: after any sequence of operations
  the file is either untouched, along with the hierarchy, or holds the current document
  with the conventions loaded at the start.
\<close>

theorem conventions_unchanged:
  "\<not> has_key (assets_hierarchy (snd (init file root))) ''naming_conventions''
   \<and> (run fmt s acts = Inr s' \<longrightarrow>
        naming_conventions s' = naming_conventions s
        \<and> ((config_json s' = config_json s \<and> assets_hierarchy s' = assets_hierarchy s)
           \<or> config_json s' = Some (document s')))
   \<and> config_json (snd (save_assets_to_json s)) = Some (document s)
   \<and> subscript (document s) ''naming_conventions'' = Inr (naming_conventions s)"
  using persisted_run[of fmt s acts s'] init_separates[of "file" root] document_conventions[of s]
  by (auto simp: persisted_def)

theorem conventions_unchanged_witness:
  "run no_format state_initial [Add_project ''Show A'']
     = Inr (snd (add_project state_initial ''Show A''))
   \<and> naming_conventions (snd (add_project state_initial ''Show A''))
       = naming_conventions state_initial
   \<and> ((config_json (snd (add_project state_initial ''Show A'')) = config_json state_initial
       \<and> assets_hierarchy (snd (add_project state_initial ''Show A''))
           = assets_hierarchy state_initial)
      \<or> config_json (snd (add_project state_initial ''Show A''))
          = Some (document (snd (add_project state_initial ''Show A''))))"
proof -
  have r: "run no_format state_initial [Add_project ''Show A'']
     = Inr (snd (add_project state_initial ''Show A''))"
    by (simp add: case_prod_beta)
  from conventions_unchanged[where fmt = no_format and s = state_initial
      and acts = "[Add_project ''Show A'']" and s' = "snd (add_project state_initial ''Show A'')"] r
  show ?thesis by simp
qed

section \<open>Creating an asset\<close>

lemma is_asset_subscript:
  assumes "is_asset a"
  obtains n i where "subscript a ''display_name'' = Inr (JStr n)" "subscript a ''db_name'' = Inr (JStr i)"
proof -
  have str: "\<And>v. is_str v \<Longrightarrow> \<exists>x. v = JStr x"
    by (simp add: is_str_def split: json.splits)
  from assms obtain d where d: "a = JDict d"
    by (cases a) (simp_all add: is_asset_def)
  with assms obtain v w where "map_of d ''display_name'' = Some v" "is_str v"
    "map_of d ''db_name'' = Some w" "is_str w"
    by (auto simp: is_asset_def split: option.splits)
  moreover from this str obtain n i where "v = JStr n" "w = JStr i" by blast
  ultimately show ?thesis using d that by (simp add: subscript_def)
qed

lemma any_db_name_assets:
  "list_all is_asset xs \<Longrightarrow> any_db_name xs db_name = Inr (has_db_name xs db_name)"
proof (induction xs)
  case Nil
  then show ?case by (simp add: has_db_name_def)
next
  case (Cons a xs)
  then have "is_asset a" and IH: "any_db_name xs db_name = Inr (has_db_name xs db_name)" by simp_all
  from \<open>is_asset a\<close> obtain i where "subscript a ''db_name'' = Inr (JStr i)"
    by (rule is_asset_subscript)
  with IH show ?case by (auto simp: has_db_name_def)
qed

lemma get_display_names_assets:
  "list_all is_asset xs \<Longrightarrow> \<exists>ns. get_display_names xs = Inr ns"
proof (induction xs)
  case Nil
  then show ?case by simp
next
  case (Cons a xs)
  then have "is_asset a" and "\<exists>ns. get_display_names xs = Inr ns" by simp_all
  moreover from \<open>is_asset a\<close> obtain n where "subscript a ''display_name'' = Inr (JStr n)"
    by (rule is_asset_subscript)
  ultimately show ?case by auto
qed

lemma is_asset_new [simp]: "is_asset (new_asset display_name db_name)"
  by (simp add: is_asset_def is_str_def new_asset_def)

text \<open>Reading back what was put.\<close>

lemma unwrap_put_category:
  "unwrap (put_category cat_val ys) = JList ys"
  by (auto simp: unwrap_def put_category_def has_key_map_of update_conv' split: json.splits option.splits)

lemma get_assets_SomeD:
  assumes "get_assets h (Some p) (Some c) = Inr v"
  obtains cs cat_val where "map_of h p = Some (JDict cs)" "map_of cs c = Some cat_val" "v = unwrap cat_val"
  using assms
  by (auto simp: get_assets_def subscript_def split: option.splits json.splits sum.splits)

lemma get_assets_put:
  assumes "get_assets h (Some p) (Some c) = Inr v"
  shows "get_assets (put_assets h p c ys) (Some p) (Some c) = Inr (JList ys)"
proof -
  from assms obtain cs cat_val where "map_of h p = Some (JDict cs)" "map_of cs c = Some cat_val"
    by (rule get_assets_SomeD)
  then show ?thesis
    by (simp add: get_assets_def put_assets_def update_conv' subscript_def unwrap_put_category)
qed

lemma get_assets_put_other:
  assumes "(po, co) \<noteq> (Some p, Some c)"
  shows "get_assets (put_assets h p c ys) po co = get_assets h po co"
proof (cases "map_of h p")
  case None
  then show ?thesis by (simp add: put_assets_def)
next
  case (Some v)
  show ?thesis
  proof (cases v)
    case (JDict cs)
    show ?thesis
    proof (cases "map_of cs c")
      case None
      with Some JDict show ?thesis by (simp add: put_assets_def)
    next
      case (Some cat_val)
      with \<open>map_of h p = Some v\<close> JDict assms show ?thesis
        by (cases po; cases co)
           (auto simp: put_assets_def get_assets_def update_conv' subscript_def)
    qed
  qed (use Some in \<open>simp_all add: put_assets_def\<close>)
qed

lemma houdini_step_returns:
  assumes "houdini_returns houdini"
  obtains hm s2 where "houdini_step houdini s = Inr (hm, s2)" "Warn_duplicate \<notin> set hm"
proof (cases houdini)
  case None
  then show ?thesis using that by (simp add: houdini_step_def)
next
  case (Some f)
  with assms obtain r' where "f (root_dir s) = Inr r'"
    by (auto simp: houdini_returns_def)
  with Some show ?thesis using that by (simp add: houdini_step_def)
qed

lemma save_messages: "Warn_duplicate \<notin> set (fst (save_assets_to_json s))"
  by (simp add: save_assets_to_json_def split: prod.splits)

lemma show_asset_buttons_cong:
  "assets_hierarchy s' = assets_hierarchy s \<Longrightarrow> selected_project s' = selected_project s
   \<Longrightarrow> selected_category s' = selected_category s \<Longrightarrow> show_asset_buttons s' = show_asset_buttons s"
  by (simp add: show_asset_buttons_def)

lemma create_asset_duplicate:
  assumes "selected_project s = Some p" and "selected_category s = Some c"
    and "get_assets (assets_hierarchy s) (Some p) (Some c) = Inr (JList xs)"
    and "list_all is_asset xs"
    and "display_name \<noteq> []"
    and "resolve_db_name fmt (naming_conventions s) (Some c) display_name variant = Inr (Some db_name)"
    and "has_db_name xs db_name"
  shows "create_asset_clicked fmt s (display_name, True) variant houdini = Inr ([Warn_duplicate], s)"
  using assms
  by (simp add: create_asset_clicked_def iterate_def any_db_name_assets)

lemma create_asset_append:
  assumes sel: "selected_project s = Some p" "selected_category s = Some c"
    and ga: "get_assets (assets_hierarchy s) (Some p) (Some c) = Inr (JList xs)"
    and as: "list_all is_asset xs"
    and ne: "display_name \<noteq> []"
    and rs: "resolve_db_name fmt (naming_conventions s) (Some c) display_name variant = Inr (Some db_name)"
    and hr: "houdini_returns houdini"
    and nd: "\<not> has_db_name xs db_name"
  shows "\<exists>m s'. create_asset_clicked fmt s (display_name, True) variant houdini = Inr (m, s')
           \<and> Info_asset_created \<in> set m \<and> Warn_duplicate \<notin> set m
           \<and> assets_hierarchy s' = put_assets (assets_hierarchy s) p c (xs @ [new_asset display_name db_name])
           \<and> projects s' = projects s \<and> naming_conventions s' = naming_conventions s
           \<and> config_json s' = Some (document s')"
proof -
  let ?ys = "xs @ [new_asset display_name db_name]"
  let ?t = "put_selected s ?ys"
  let ?s1 = "snd (save_assets_to_json ?t)"
  from hr obtain hm s2 where h: "houdini_step houdini ?s1 = Inr (hm, s2)" and hm: "Warn_duplicate \<notin> set hm"
    by (rule houdini_step_returns)
  note f = houdini_step_fields[OF h]
  have ht: "assets_hierarchy ?t = put_assets (assets_hierarchy s) p c ?ys"
    using sel by (simp add: put_selected_def)
  have h2: "assets_hierarchy s2 = put_assets (assets_hierarchy s) p c ?ys"
    using f ht by simp
  have "get_assets (assets_hierarchy s2) (Some p) (Some c) = Inr (JList ?ys)"
    unfolding h2 by (rule get_assets_put[OF ga])
  moreover have "selected_project s2 = Some p" "selected_category s2 = Some c"
    using f sel by simp_all
  moreover from as have "list_all is_asset ?ys" by simp
  then obtain ns where "get_display_names ?ys = Inr ns"
    using get_display_names_assets by blast
  ultimately have sh: "show_asset_buttons s2 = Inr ()"
    by (simp add: show_asset_buttons_def iterate_def)
  have doc: "document s2 = document ?t"
    using f by (simp add: document_def)
  have "create_asset_clicked fmt s (display_name, True) variant houdini
          = Inr (fst (save_assets_to_json ?t) @ hm @ [Info_asset_created], s2)"
    using sel ga ne rs nd h sh
    by (simp add: create_asset_clicked_def iterate_def any_db_name_assets[OF as] case_prod_beta)
  moreover have "config_json s2 = Some (document s2)"
    using f doc by simp
  ultimately show ?thesis
    using h2 f hm save_messages[of ?t] by simp
qed

text \<open>
  C2. With a project and a category selected whose asset list holds asset objects, and
  a display name for which an identifier is resolved: if some asset of the list has
  that identifier as its \<^verbatim>\<open>db_name\<close>, \<^verbatim>\<open>create_asset_clicked\<close> reports the duplicate and
  returns the state it was given, so nothing is appended, modified or saved; otherwise
  it appends the one entry at the end of that list, leaves every other list, the
  projects and the conventions as they were, and saves the document.
\<close>

theorem create_asset_duplicate_or_append:
  assumes "selected_project s = Some p" and "selected_category s = Some c"
    and "get_assets (assets_hierarchy s) (Some p) (Some c) = Inr (JList xs)"
    and "list_all is_asset xs"
    and "display_name \<noteq> []"
    and "resolve_db_name fmt (naming_conventions s) (Some c) display_name variant = Inr (Some db_name)"
    and "houdini_returns houdini"
  shows "(has_db_name xs db_name \<longrightarrow>
            create_asset_clicked fmt s (display_name, True) variant houdini = Inr ([Warn_duplicate], s))
       \<and> (\<not> has_db_name xs db_name \<longrightarrow>
            (\<exists>m s'. create_asset_clicked fmt s (display_name, True) variant houdini = Inr (m, s')
               \<and> Info_asset_created \<in> set m \<and> Warn_duplicate \<notin> set m
               \<and> assets_hierarchy s'
                    = put_assets (assets_hierarchy s) p c (xs @ [new_asset display_name db_name])
               \<and> get_assets (assets_hierarchy s') (Some p) (Some c)
                    = Inr (JList (xs @ [new_asset display_name db_name]))
               \<and> (\<forall>po co. (po, co) \<noteq> (Some p, Some c) \<longrightarrow>
                     get_assets (assets_hierarchy s') po co = get_assets (assets_hierarchy s) po co)
               \<and> map fst (assets_hierarchy s') = map fst (assets_hierarchy s)
               \<and> projects s' = projects s \<and> naming_conventions s' = naming_conventions s
               \<and> config_json s' = Some (document s')))"
proof (intro conjI impI)
  assume "has_db_name xs db_name"
  with assms show "create_asset_clicked fmt s (display_name, True) variant houdini
                     = Inr ([Warn_duplicate], s)"
    by (simp add: create_asset_duplicate)
next
  assume "\<not> has_db_name xs db_name"
  with assms obtain m s' where
    c: "create_asset_clicked fmt s (display_name, True) variant houdini = Inr (m, s')"
      "Info_asset_created \<in> set m" "Warn_duplicate \<notin> set m"
      "projects s' = projects s" "naming_conventions s' = naming_conventions s"
      "config_json s' = Some (document s')"
    and h: "assets_hierarchy s'
              = put_assets (assets_hierarchy s) p c (xs @ [new_asset display_name db_name])"
    using create_asset_append[of s p c xs display_name fmt variant db_name houdini] by blast
  from h assms(3) have "get_assets (assets_hierarchy s') (Some p) (Some c)
                          = Inr (JList (xs @ [new_asset display_name db_name]))"
    by (simp add: get_assets_put)
  moreover from h have "\<forall>po co. (po, co) \<noteq> (Some p, Some c) \<longrightarrow>
      get_assets (assets_hierarchy s') po co = get_assets (assets_hierarchy s) po co"
    by (simp add: get_assets_put_other)
  moreover from h have "map fst (assets_hierarchy s') = map fst (assets_hierarchy s)"
    by simp
  ultimately show "\<exists>m s'. create_asset_clicked fmt s (display_name, True) variant houdini = Inr (m, s')
               \<and> Info_asset_created \<in> set m \<and> Warn_duplicate \<notin> set m
               \<and> assets_hierarchy s'
                    = put_assets (assets_hierarchy s) p c (xs @ [new_asset display_name db_name])
               \<and> get_assets (assets_hierarchy s') (Some p) (Some c)
                    = Inr (JList (xs @ [new_asset display_name db_name]))
               \<and> (\<forall>po co. (po, co) \<noteq> (Some p, Some c) \<longrightarrow>
                     get_assets (assets_hierarchy s') po co = get_assets (assets_hierarchy s) po co)
               \<and> map fst (assets_hierarchy s') = map fst (assets_hierarchy s)
               \<and> projects s' = projects s \<and> naming_conventions s' = naming_conventions s
               \<and> config_json s' = Some (document s')"
    using c h by blast
qed

lemma state_textures_selected:
  "selected_project state_textures = Some ''Show A''"
  "selected_category state_textures = Some ''Textures''"
  "naming_conventions state_textures = conventions_example"
  by (simp_all add: state_textures_def)

lemma resolve_example_textures:
  "resolve_db_name no_format conventions_example (Some ''Textures'') ''Rock Diffuse'' (''Diffuse'', True)
     = Inr (Some ''T_RockDiffuse_D'')"
  "resolve_db_name no_format conventions_example (Some ''Textures'') ''Stone'' (''Diffuse'', True)
     = Inr (Some ''T_Stone_D'')"
  by (simp_all add: resolve_db_name_def conventions_example_def dict_get_def choose_suffix_def
      py_format_def remove_spaces_def has_key_def subscript_def)

theorem create_asset_duplicate_or_append_witness:
  "selected_project state_textures = Some ''Show A''
   \<and> selected_category state_textures = Some ''Textures''
   \<and> get_assets (assets_hierarchy state_textures) (Some ''Show A'') (Some ''Textures'')
       = Inr (JList [new_asset ''Rock Diffuse'' ''T_RockDiffuse_D''])
   \<and> list_all is_asset [new_asset ''Rock Diffuse'' ''T_RockDiffuse_D'']
   \<and> houdini_returns None
   \<and> resolve_db_name no_format (naming_conventions state_textures) (Some ''Textures'')
        ''Rock Diffuse'' (''Diffuse'', True) = Inr (Some ''T_RockDiffuse_D'')
   \<and> has_db_name [new_asset ''Rock Diffuse'' ''T_RockDiffuse_D''] ''T_RockDiffuse_D''
   \<and> create_asset_clicked no_format state_textures (''Rock Diffuse'', True) (''Diffuse'', True) None
       = Inr ([Warn_duplicate], state_textures)
   \<and> resolve_db_name no_format (naming_conventions state_textures) (Some ''Textures'')
        ''Stone'' (''Diffuse'', True) = Inr (Some ''T_Stone_D'')
   \<and> \<not> has_db_name [new_asset ''Rock Diffuse'' ''T_RockDiffuse_D''] ''T_Stone_D''
   \<and> (\<exists>m s'. create_asset_clicked no_format state_textures (''Stone'', True) (''Diffuse'', True) None
                 = Inr (m, s')
          \<and> Info_asset_created \<in> set m
          \<and> get_assets (assets_hierarchy s') (Some ''Show A'') (Some ''Textures'')
               = Inr (JList [new_asset ''Rock Diffuse'' ''T_RockDiffuse_D'', new_asset ''Stone'' ''T_Stone_D''])
          \<and> config_json s' = Some (document s'))"
proof -
  have g: "get_assets (assets_hierarchy state_textures) (Some ''Show A'') (Some ''Textures'')
       = Inr (JList [new_asset ''Rock Diffuse'' ''T_RockDiffuse_D''])"
    using state_textures_assets by (simp add: state_textures_selected)
  have a: "list_all is_asset [new_asset ''Rock Diffuse'' ''T_RockDiffuse_D'']" by simp
  have hr: "houdini_returns None" by (simp add: houdini_returns_def)
  have d1: "has_db_name [new_asset ''Rock Diffuse'' ''T_RockDiffuse_D''] ''T_RockDiffuse_D''"
    and d2: "\<not> has_db_name [new_asset ''Rock Diffuse'' ''T_RockDiffuse_D''] ''T_Stone_D''"
    by (simp_all add: has_db_name_def new_asset_def subscript_def)
  have r1: "resolve_db_name no_format (naming_conventions state_textures) (Some ''Textures'')
        ''Rock Diffuse'' (''Diffuse'', True) = Inr (Some ''T_RockDiffuse_D'')"
    and r2: "resolve_db_name no_format (naming_conventions state_textures) (Some ''Textures'')
        ''Stone'' (''Diffuse'', True) = Inr (Some ''T_Stone_D'')"
    by (simp_all add: state_textures_selected resolve_example_textures)
  have ne: "''Rock Diffuse'' \<noteq> []" "''Stone'' \<noteq> []" by simp_all
  from create_asset_duplicate_or_append[OF state_textures_selected(1,2) g a ne(1) r1 hr] d1
  have c1: "create_asset_clicked no_format state_textures (''Rock Diffuse'', True) (''Diffuse'', True) None
       = Inr ([Warn_duplicate], state_textures)" by simp
  from create_asset_duplicate_or_append[OF state_textures_selected(1,2) g a ne(2) r2 hr] d2
  have c2: "\<exists>m s'. create_asset_clicked no_format state_textures (''Stone'', True) (''Diffuse'', True) None
                 = Inr (m, s')
          \<and> Info_asset_created \<in> set m
          \<and> get_assets (assets_hierarchy s') (Some ''Show A'') (Some ''Textures'')
               = Inr (JList [new_asset ''Rock Diffuse'' ''T_RockDiffuse_D'', new_asset ''Stone'' ''T_Stone_D''])
          \<and> config_json s' = Some (document s')"
    by auto
  from g a hr r1 r2 d1 d2 c1 c2 show ?thesis
    by (simp only: state_textures_selected simp_thms)
qed

section \<open>The wrapper form of a category\<close>

lemma load_doc_wrapper:
  "load_assets_from_json (Some doc_wrapper)
     = ([], [(''Show A'', JDict [(''Textures'', JDict [(''assets'', JList [new_asset ''Rock'' ''Rock''])])])])"
  by (simp add: load_assets_from_json_def doc_wrapper_def migrate_def migrate_projects_def
      migrate_project_def rename_meshes_def migrate_categories_def migrate_category_def
      migrate_conventions_def remove_spaces_def new_asset_def)

text \<open>
  C5, as it is stated: whatever the legacy shapes of the loaded document, every
  category value of the written document is a bare sequence. It fails for a document
  with a category in wrapper form: the wrapper is written back.
\<close>

theorem wrapper_written_counterexample:
  "config_json (snd (save_assets_to_json (snd (init (Some doc_wrapper) [])))) = Some written_wrapper
   \<and> \<not> bare_categories written_wrapper"
  by (simp add: init_def load_doc_wrapper has_key_def Master_Assets_def document_def
      written_wrapper_def bare_categories_def)

lemma migrate_category_unwrap:
  assumes "unwrap v = JList xs"
  shows "migrate_category v = Some (put_category v (map migrate_asset xs))"
proof (cases v)
  case (JDict w)
  with assms show ?thesis
    by (cases "map_of w ''assets''")
       (auto simp: unwrap_def migrate_category_def put_category_def has_key_map_of)
qed (use assms in \<open>auto simp: unwrap_def migrate_category_def put_category_def\<close>)

lemma is_wrapper_put_category: "is_wrapper (put_category v ys) = is_wrapper v"
  by (auto simp: is_wrapper_def put_category_def has_key_map_of update_conv' split: json.splits)

lemma migrate_categories_lookup:
  "migrate_categories cs = Some cs' \<Longrightarrow> map_of cs c = Some v \<Longrightarrow>
   \<exists>v'. migrate_category v = Some v' \<and> map_of cs' c = Some v'"
proof (induction cs arbitrary: cs')
  case Nil
  then show ?case by simp
next
  case (Cons kv cs)
  obtain k w where kv: "kv = (k, w)" by (cases kv)
  from Cons.prems(1) kv obtain w' rest where w': "migrate_category w = Some w'"
    and rest: "migrate_categories cs = Some rest" and cs': "cs' = (k, w') # rest"
    by (auto simp: migrate_categories_def split: option.splits)
  show ?case
  proof (cases "k = c")
    case True
    with Cons.prems(2) kv w' cs' show ?thesis by simp
  next
    case False
    with Cons.prems(2) kv have "map_of cs c = Some v" by simp
    from Cons.IH[OF rest this] False cs' show ?thesis by simp
  qed
qed

lemma migrate_projects_lookup:
  "migrate_projects d = Some d' \<Longrightarrow> map_of d p = Some v \<Longrightarrow> p \<noteq> ''naming_conventions'' \<Longrightarrow>
   \<exists>v'. migrate_project v = Some v' \<and> map_of d' p = Some v'"
proof (induction d arbitrary: d')
  case Nil
  then show ?case by simp
next
  case (Cons kv d)
  obtain k w where kv: "kv = (k, w)" by (cases kv)
  from Cons.prems(1) kv obtain w' rest where
    w': "if k = ''naming_conventions'' then w' = w else migrate_project w = Some w'"
    and rest: "migrate_projects d = Some rest" and d': "d' = (k, w') # rest"
    by (auto simp: migrate_projects_def split: option.splits if_splits)
  show ?case
  proof (cases "k = p")
    case True
    with Cons.prems(2,3) kv w' d' show ?thesis by simp
  next
    case False
    with Cons.prems(2) kv have "map_of d p = Some v" by simp
    from Cons.IH[OF rest this Cons.prems(3)] False d' show ?thesis by simp
  qed
qed

lemma migrate_conventions_lookup:
  "migrate_conventions d = Some d' \<Longrightarrow> p \<noteq> ''naming_conventions'' \<Longrightarrow> map_of d' p = map_of d p"
  unfolding migrate_conventions_def
  by (auto split: option.splits json.splits if_splits simp: update_conv')

lemma init_lookup:
  assumes "migrate raw = Some d2" and "map_of d2 p = Some v" and "p \<noteq> ''naming_conventions''"
  shows "map_of (assets_hierarchy (snd (init (Some raw) root))) p = Some v"
  using assms
  by (auto simp: init_def load_assets_from_json_def Let_def has_key_map_of update_conv' delete_conv')

lemma document_lookup:
  "p \<noteq> ''naming_conventions'' \<Longrightarrow>
   subscript (document s) p = (case map_of (assets_hierarchy s) p of None \<Rightarrow> Inl KeyError | Some v \<Rightarrow> Inr v)"
  by (simp add: document_def subscript_def update_conv')

lemma rename_meshes_lookup:
  "map_of (rename_meshes cs) c =
     (if has_key cs ''Meshes''
      then (if c = ''Static Meshes'' then map_of cs ''Meshes''
            else if c = ''Meshes'' then None else map_of cs c)
      else map_of cs c)"
  by (auto simp: rename_meshes_def has_key_map_of update_conv' delete_conv' split: option.splits)

lemma migrate_categories_keys: "migrate_categories cs = Some cs' \<Longrightarrow> map fst cs' = map fst cs"
proof (induction cs arbitrary: cs')
  case Nil
  then show ?case by (simp add: migrate_categories_def)
next
  case (Cons kv cs)
  then show ?case
    by (cases kv) (auto simp: migrate_categories_def split: option.splits)
qed

lemma loaded_category_renamed:
  assumes m: "migrate (JDict d) = Some d2"
    and p: "map_of d p = Some (JDict cs)" "p \<noteq> ''naming_conventions''"
    and c: "map_of (rename_meshes cs) c = Some v" "unwrap v = JList xs"
  shows "\<exists>cs'. map_of (assets_hierarchy (snd (init (Some (JDict d)) root))) p = Some (JDict cs')
           \<and> map_of cs' c = Some (put_category v (map migrate_asset xs))
           \<and> \<not> has_key cs' ''Meshes''"
proof -
  from m obtain d1 where d1: "migrate_projects d = Some d1" and d2: "migrate_conventions d1 = Some d2"
    by (auto simp: migrate_def split: option.splits)
  from migrate_projects_lookup[OF d1 p] obtain pv where
    pv: "migrate_project (JDict cs) = Some pv" "map_of d1 p = Some pv" by blast
  from pv(1) obtain cs' where cs': "migrate_categories (rename_meshes cs) = Some cs'" "pv = JDict cs'"
    by (auto simp: migrate_project_def)
  from migrate_categories_lookup[OF cs'(1) c(1)] migrate_category_unwrap[OF c(2)]
  have "map_of cs' c = Some (put_category v (map migrate_asset xs))" by simp
  moreover from migrate_categories_keys[OF cs'(1)] rename_meshes_no_Meshes[of cs]
  have "\<not> has_key cs' ''Meshes''" by (simp add: has_key_def)
  moreover from pv(2) cs'(2) migrate_conventions_lookup[OF d2 p(2)]
  have "map_of d2 p = Some (JDict cs')" by simp
  from init_lookup[OF m this p(2)]
  have "map_of (assets_hierarchy (snd (init (Some (JDict d)) root))) p = Some (JDict cs')" .
  ultimately show ?thesis by blast
qed

text \<open>
  C5, amended. A category value in the wrapper form is accepted on read. It is not
  unwrapped: every category of a loaded project, after the legacy category \<^verbatim>\<open>Meshes\<close>, when
  there is one, has been renamed to \<^verbatim>\<open>Static Meshes\<close> (its value replacing what was read
  under \<^verbatim>\<open>Static Meshes\<close>), keeps in memory and in the written document the form its value
  was read in, with the bare strings of its sequence migrated: a wrapper is written as a
  wrapper and a bare sequence as a bare sequence. No written project has a category
  \<^verbatim>\<open>Meshes\<close>, and \<^verbatim>\<open>get_assets\<close> reads the sequence through the wrapper.
\<close>

theorem wrapper_form_kept:
  assumes "migrate (JDict d) = Some d2"
    and "map_of d p = Some (JDict cs)" and "p \<noteq> ''naming_conventions''"
    and "map_of (rename_meshes cs) c = Some v" and "unwrap v = JList xs"
    and "s = snd (init (Some (JDict d)) root)"
  shows "config_json (snd (save_assets_to_json s)) = Some (document s)
       \<and> (\<exists>cs'. subscript (document s) p = Inr (JDict cs')
                 \<and> subscript (JDict cs') c = Inr (put_category v (map migrate_asset xs))
                 \<and> \<not> has_key cs' ''Meshes'')
       \<and> is_wrapper (put_category v (map migrate_asset xs)) = is_wrapper v
       \<and> get_assets (assets_hierarchy s) (Some p) (Some c) = Inr (JList (map migrate_asset xs))
       \<and> map_of (rename_meshes cs) c =
           (if has_key cs ''Meshes''
            then (if c = ''Static Meshes'' then map_of cs ''Meshes''
                  else if c = ''Meshes'' then None else map_of cs c)
            else map_of cs c)"
proof -
  from loaded_category_renamed[OF assms(1-5), of root] assms(6) obtain cs' where
    h: "map_of (assets_hierarchy s) p = Some (JDict cs')"
    and cv: "map_of cs' c = Some (put_category v (map migrate_asset xs))"
    and nm: "\<not> has_key cs' ''Meshes''" by blast
  from h cv have "get_assets (assets_hierarchy s) (Some p) (Some c) = Inr (JList (map migrate_asset xs))"
    by (simp add: get_assets_def subscript_def unwrap_put_category)
  moreover from h assms(3) have "subscript (document s) p = Inr (JDict cs')"
    by (simp add: document_lookup)
  moreover from cv have "subscript (JDict cs') c = Inr (put_category v (map migrate_asset xs))"
    by (simp add: subscript_def)
  moreover note nm rename_meshes_lookup[of cs c]
  ultimately show ?thesis
    by (simp add: is_wrapper_put_category)
qed

lemma doc_legacy_migrate:
  "migrate (JDict [(''Show A'',
             JDict [(''Static Meshes'', JDict [(''assets'', JList [JStr ''Old Crate''])]),
                    (''Meshes'', JList [JStr ''Barrel'']),
                    (''Textures'', JDict [(''assets'', JList [JStr ''Rock''])])])])
   = Some [(''Show A'',
             JDict [(''Static Meshes'', JList [new_asset ''Barrel'' ''Barrel'']),
                    (''Textures'', JDict [(''assets'', JList [new_asset ''Rock'' ''Rock''])])])]"
  by code_simp

lemma doc_legacy_categories:
  "map_of (rename_meshes [(''Static Meshes'', JDict [(''assets'', JList [JStr ''Old Crate''])]),
                    (''Meshes'', JList [JStr ''Barrel'']),
                    (''Textures'', JDict [(''assets'', JList [JStr ''Rock''])])]) ''Static Meshes''
     = Some (JList [JStr ''Barrel''])"
  "map_of (rename_meshes [(''Static Meshes'', JDict [(''assets'', JList [JStr ''Old Crate''])]),
                    (''Meshes'', JList [JStr ''Barrel'']),
                    (''Textures'', JDict [(''assets'', JList [JStr ''Rock''])])]) ''Textures''
     = Some (JDict [(''assets'', JList [JStr ''Rock''])])"
  "unwrap (JList [JStr ''Barrel'']) = JList [JStr ''Barrel'']"
  "unwrap (JDict [(''assets'', JList [JStr ''Rock''])]) = JList [JStr ''Rock'']"
  by code_simp+

theorem wrapper_form_kept_witness:
  "migrate doc_legacy \<noteq> None
   \<and> (\<exists>cs'. subscript (document (snd (init (Some doc_legacy) []))) ''Show A'' = Inr (JDict cs')
         \<and> subscript (JDict cs') ''Static Meshes'' = Inr (JList [new_asset ''Barrel'' ''Barrel''])
         \<and> subscript (JDict cs') ''Textures''
              = Inr (JDict [(''assets'', JList [new_asset ''Rock'' ''Rock''])])
         \<and> \<not> has_key cs' ''Meshes'')
   \<and> get_assets (assets_hierarchy (snd (init (Some doc_legacy) []))) (Some ''Show A'') (Some ''Static Meshes'')
       = Inr (JList [new_asset ''Barrel'' ''Barrel''])
   \<and> get_assets (assets_hierarchy (snd (init (Some doc_legacy) []))) (Some ''Show A'') (Some ''Textures'')
       = Inr (JList [new_asset ''Rock'' ''Rock''])"
proof -
  note a = wrapper_form_kept[OF doc_legacy_migrate _ _ doc_legacy_categories(1,3),
      where p = "''Show A''" and root = "[]" and s = "snd (init (Some doc_legacy) [])"]
  note b = wrapper_form_kept[OF doc_legacy_migrate _ _ doc_legacy_categories(2,4),
      where p = "''Show A''" and root = "[]" and s = "snd (init (Some doc_legacy) [])"]
  from a b doc_legacy_migrate show ?thesis
    by (auto simp: doc_legacy_def put_category_def new_asset_def remove_spaces_def has_key_def
        subscript_def)
qed

section \<open>Renames on disk that fail\<close>

lemma try_rename_fails:
  "rename_fails os_ok parent old new root \<Longrightarrow>
   try_rename warning os_ok parent old new root = ([warning], root)"
  by (simp add: rename_fails_def try_rename_def)

lemma try_rename_messages: "set (fst (try_rename warning os_ok parent old new root)) \<subseteq> {warning}"
  by (simp add: try_rename_def split: option.splits)

lemma rename_project_commits:
  assumes "old_name \<noteq> Master_Assets" and "old_name \<in> set (projects s)"
    and "map_of (assets_hierarchy s) old_name = Some categories"
    and "input \<noteq> []" and "strip input = new_name" and "new_name \<noteq> []"
    and "new_name \<notin> set (projects s)" and "new_name \<noteq> Master_Assets"
  shows "\<exists>m s'. rename_project s (Some old_name) (input, True) os_ok = Inr (m, s')
           \<and> assets_hierarchy s'
                = AList.update new_name categories (AList.delete old_name (assets_hierarchy s))
           \<and> projects s' = (projects s)[list_index (projects s) old_name := new_name]
           \<and> config_json s' = Some (document s')
           \<and> last m = Info_project_renamed
           \<and> (rename_fails os_ok [] old_name new_name (root_dir s)
                \<longrightarrow> Warn_rename_project_folder \<in> set m)"
  using assms
  by (auto simp: rename_project_def Let_def case_prod_beta document_def try_rename_fails)

lemma is_asset_rename:
  assumes "is_asset a"
  shows "is_asset (rename_asset_dict a n i)"
  using assms
  by (cases a) (auto simp: is_asset_def rename_asset_dict_def update_conv' is_str_def)

lemma find_asset_less:
  "find_asset_by_display_name xs n = Inr (Some i) \<Longrightarrow> i < length xs"
proof (induction xs arbitrary: i)
  case Nil
  then show ?case by simp
next
  case (Cons a xs)
  then show ?case
    by (auto split: sum.splits if_splits option.splits)
qed

lemma list_all_update: "list_all P xs \<Longrightarrow> P y \<Longrightarrow> list_all P (xs[i := y])"
  by (auto simp: list_all_iff dest: set_update_subset_insert[THEN subsetD])

lemma edit_asset_commits:
  assumes sel: "selected_project s = Some p" "selected_category s = Some c"
    and ga: "get_assets (assets_hierarchy s) (Some p) (Some c) = Inr (JList xs)"
    and as: "list_all is_asset xs"
    and fi: "find_asset_by_display_name xs asset_name = Inr (Some i)"
    and ne: "new_name \<noteq> []"
    and rs: "resolve_db_name fmt (naming_conventions s) (Some c) new_name variant = Inr (Some new_db_name)"
    and nd: "any_db_name (filter (\<lambda>a. \<not> py_eq a (xs ! i)) xs) new_db_name = Inr False"
    and od: "subscript (xs ! i) ''db_name'' = Inr (JStr old_db_name)"
    and r1: "r1 = snd (try_rename Warn_rename_file file_ok [p, c, old_db_name]
                         (hipnc old_db_name) (hipnc new_db_name) (root_dir s))"
    and r2: "r2 = snd (try_rename Warn_rename_asset_folder folder_ok [p, c] old_db_name new_db_name r1)"
  shows "\<exists>m s'. edit_asset_clicked fmt s asset_name (new_name, True) variant file_ok folder_ok = Inr (m, s')
           \<and> assets_hierarchy s'
                = put_assets (assets_hierarchy s) p c (xs[i := rename_asset_dict (xs ! i) new_name new_db_name])
           \<and> config_json s' = Some (document s')
           \<and> last m = Info_asset_renamed
           \<and> (rename_fails file_ok [p, c, old_db_name] (hipnc old_db_name) (hipnc new_db_name) (root_dir s)
                \<longrightarrow> Warn_rename_file \<in> set m \<and> r1 = root_dir s)
           \<and> (rename_fails folder_ok [p, c] old_db_name new_db_name r1
                \<longrightarrow> Warn_rename_asset_folder \<in> set m \<and> r2 = r1)
           \<and> root_dir s' = snd (sync_filesystem_with_json (assets_hierarchy s') r2)"
proof -
  let ?ys = "xs[i := rename_asset_dict (xs ! i) new_name new_db_name]"
  let ?t = "put_selected (s\<lparr>root_dir := r2\<rparr>) ?ys"
  let ?s1 = "snd (save_assets_to_json ?t)"
  let ?w1 = "fst (try_rename Warn_rename_file file_ok [p, c, old_db_name]
                         (hipnc old_db_name) (hipnc new_db_name) (root_dir s))"
  let ?w2 = "fst (try_rename Warn_rename_asset_folder folder_ok [p, c] old_db_name new_db_name r1)"
  have sp: "selected_path s = [p, c]" using sel by (simp add: selected_path_def)
  have ht: "assets_hierarchy ?t = put_assets (assets_hierarchy s) p c ?ys"
    using sel by (simp add: put_selected_def)
  from fi have il: "i < length xs" by (rule find_asset_less)
  with as have "is_asset (xs ! i)" by (simp add: list_all_length)
  with as have "list_all is_asset ?ys" by (simp add: list_all_update is_asset_rename)
  then obtain ns where "get_display_names ?ys = Inr ns"
    using get_display_names_assets by blast
  moreover have "get_assets (assets_hierarchy ?s1) (Some p) (Some c) = Inr (JList ?ys)"
    using ht get_assets_put[OF ga] by simp
  ultimately have sh: "show_asset_buttons ?s1 = Inr ()"
    using sel by (simp add: show_asset_buttons_def iterate_def)
  have ap: "apply_rename s xs i new_name new_db_name old_db_name file_ok folder_ok
          = Inr (?w1 @ ?w2 @ fst (save_assets_to_json ?t) @ [Info_asset_renamed], ?s1)"
    using sh sp r1 r2 by (simp add: apply_rename_def case_prod_beta)
  have "edit_asset_clicked fmt s asset_name (new_name, True) variant file_ok folder_ok
          = Inr (?w1 @ ?w2 @ fst (save_assets_to_json ?t) @ [Info_asset_renamed], ?s1)"
    using sel ga fi ne rs nd od ap
    by (simp add: edit_asset_clicked_def check_and_rename_def iterate_def)
  moreover have "root_dir ?s1 = snd (sync_filesystem_with_json (assets_hierarchy ?s1) r2)"
    by (simp add: save_assets_to_json_def case_prod_beta)
  moreover have "config_json ?s1 = Some (document ?s1)"
    by (simp add: document_def)
  ultimately show ?thesis
    using ht r1 r2 by (auto simp: try_rename_fails)
qed

lemma document_holds:
  "subscript (document s) ''naming_conventions'' = Inr (naming_conventions s)"
  "k \<noteq> ''naming_conventions'' \<Longrightarrow>
   subscript (document s) k
     = (case map_of (assets_hierarchy s) k of None \<Rightarrow> Inl KeyError | Some v \<Rightarrow> Inr v)"
  by (simp_all add: document_def subscript_def update_conv')

text \<open>
  What the file holds after a rename of a project, whatever becomes of the rename of the
  folder: the conventions under their key and, under every other key, what the hierarchy
  in memory has there. The renamed project is in the file when its new name is not
  \<^verbatim>\<open>naming_conventions\<close>.
\<close>

lemma rename_project_persists:
  assumes "old_name \<noteq> Master_Assets" and "old_name \<in> set (projects s)"
    and "map_of (assets_hierarchy s) old_name = Some categories"
    and "input \<noteq> []" and "strip input = new_name" and "new_name \<noteq> []"
    and "new_name \<notin> set (projects s)" and "new_name \<noteq> Master_Assets"
  shows "\<exists>m s' written. rename_project s (Some old_name) (input, True) os_ok = Inr (m, s')
           \<and> assets_hierarchy s'
                = AList.update new_name categories (AList.delete old_name (assets_hierarchy s))
           \<and> projects s' = (projects s)[list_index (projects s) old_name := new_name]
           \<and> config_json s' = Some written
           \<and> subscript written ''naming_conventions'' = Inr (naming_conventions s)
           \<and> (\<forall>k. k \<noteq> ''naming_conventions'' \<longrightarrow>
                 subscript written k
                   = (case map_of (assets_hierarchy s') k of None \<Rightarrow> Inl KeyError | Some v \<Rightarrow> Inr v))
           \<and> (new_name \<noteq> ''naming_conventions'' \<longrightarrow> subscript written new_name = Inr categories)
           \<and> (old_name \<noteq> ''naming_conventions'' \<longrightarrow> subscript written old_name = Inl KeyError)
           \<and> last m = Info_project_renamed
           \<and> (rename_fails os_ok [] old_name new_name (root_dir s)
                \<longrightarrow> Warn_rename_project_folder \<in> set m)"
proof -
  from rename_project_commits[OF assms, of os_ok] obtain m s' where
    r: "rename_project s (Some old_name) (input, True) os_ok = Inr (m, s')"
    and h: "assets_hierarchy s'
                = AList.update new_name categories (AList.delete old_name (assets_hierarchy s))"
    and p: "projects s' = (projects s)[list_index (projects s) old_name := new_name]"
    and c: "config_json s' = Some (document s')"
    and l: "last m = Info_project_renamed"
    and w: "rename_fails os_ok [] old_name new_name (root_dir s)
                \<longrightarrow> Warn_rename_project_folder \<in> set m" by blast
  from r assms have nc: "naming_conventions s' = naming_conventions s"
    by (auto simp: rename_project_def Let_def case_prod_beta)
  from assms(2,7) have ne: "old_name \<noteq> new_name" by blast
  have "subscript (document s') ''naming_conventions'' = Inr (naming_conventions s)"
    using nc by (simp add: document_holds)
  moreover have "\<forall>k. k \<noteq> ''naming_conventions'' \<longrightarrow>
                 subscript (document s') k
                   = (case map_of (assets_hierarchy s') k of None \<Rightarrow> Inl KeyError | Some v \<Rightarrow> Inr v)"
    by (simp add: document_holds)
  moreover have "new_name \<noteq> ''naming_conventions'' \<longrightarrow> subscript (document s') new_name = Inr categories"
    using h by (simp add: document_holds update_conv')
  moreover have "old_name \<noteq> ''naming_conventions'' \<longrightarrow> subscript (document s') old_name = Inl KeyError"
    using h ne by (simp add: document_holds update_conv' delete_conv')
  ultimately show ?thesis using r h p c l w by blast
qed

lemma get_assets_written:
  "p \<noteq> ''naming_conventions'' \<Longrightarrow>
   get_assets (AList.update ''naming_conventions'' v h) (Some p) c = get_assets h (Some p) c"
  by (simp add: get_assets_def update_conv')

text \<open>
  The same for the rename of an asset: the file holds the renamed asset when the project
  is not called \<^verbatim>\<open>naming_conventions\<close>.
\<close>

lemma edit_asset_persists:
  assumes sel: "selected_project s = Some p" "selected_category s = Some c"
    and ga: "get_assets (assets_hierarchy s) (Some p) (Some c) = Inr (JList xs)"
    and as: "list_all is_asset xs"
    and fi: "find_asset_by_display_name xs asset_name = Inr (Some i)"
    and ne: "new_name \<noteq> []"
    and rs: "resolve_db_name fmt (naming_conventions s) (Some c) new_name variant = Inr (Some new_db_name)"
    and nd: "any_db_name (filter (\<lambda>a. \<not> py_eq a (xs ! i)) xs) new_db_name = Inr False"
    and od: "subscript (xs ! i) ''db_name'' = Inr (JStr old_db_name)"
    and ta: "tree_a = snd (try_rename Warn_rename_file file_ok [p, c, old_db_name]
                         (hipnc old_db_name) (hipnc new_db_name) (root_dir s))"
    and tb: "tree_b = snd (try_rename Warn_rename_asset_folder folder_ok [p, c] old_db_name new_db_name tree_a)"
  shows "\<exists>m s' written. edit_asset_clicked fmt s asset_name (new_name, True) variant file_ok folder_ok = Inr (m, s')
           \<and> assets_hierarchy s'
                = put_assets (assets_hierarchy s) p c (xs[i := rename_asset_dict (xs ! i) new_name new_db_name])
           \<and> get_assets (assets_hierarchy s') (Some p) (Some c)
                = Inr (JList (xs[i := rename_asset_dict (xs ! i) new_name new_db_name]))
           \<and> config_json s' = Some (JDict written)
           \<and> map_of written ''naming_conventions'' = Some (naming_conventions s)
           \<and> (\<forall>k. k \<noteq> ''naming_conventions'' \<longrightarrow> map_of written k = map_of (assets_hierarchy s') k)
           \<and> (p \<noteq> ''naming_conventions'' \<longrightarrow>
                get_assets written (Some p) (Some c)
                  = Inr (JList (xs[i := rename_asset_dict (xs ! i) new_name new_db_name])))
           \<and> last m = Info_asset_renamed
           \<and> (rename_fails file_ok [p, c, old_db_name] (hipnc old_db_name) (hipnc new_db_name) (root_dir s)
                \<longrightarrow> Warn_rename_file \<in> set m \<and> tree_a = root_dir s)
           \<and> (rename_fails folder_ok [p, c] old_db_name new_db_name tree_a
                \<longrightarrow> Warn_rename_asset_folder \<in> set m \<and> tree_b = tree_a)
           \<and> root_dir s' = snd (sync_filesystem_with_json (assets_hierarchy s') tree_b)"
proof -
  let ?ys = "xs[i := rename_asset_dict (xs ! i) new_name new_db_name]"
  from edit_asset_commits[OF assms] obtain m s' where
    r: "edit_asset_clicked fmt s asset_name (new_name, True) variant file_ok folder_ok = Inr (m, s')"
    and h: "assets_hierarchy s' = put_assets (assets_hierarchy s) p c ?ys"
    and c: "config_json s' = Some (document s')"
    and l: "last m = Info_asset_renamed"
    and w1: "rename_fails file_ok [p, c, old_db_name] (hipnc old_db_name) (hipnc new_db_name) (root_dir s)
                \<longrightarrow> Warn_rename_file \<in> set m \<and> tree_a = root_dir s"
    and w2: "rename_fails folder_ok [p, c] old_db_name new_db_name tree_a
                \<longrightarrow> Warn_rename_asset_folder \<in> set m \<and> tree_b = tree_a"
    and t: "root_dir s' = snd (sync_filesystem_with_json (assets_hierarchy s') tree_b)" by blast
  from r have "persisted s s'"
    by (rule persisted_edit)
  then have nc: "naming_conventions s' = naming_conventions s" by (simp add: persisted_def)
  let ?w = "AList.update ''naming_conventions'' (naming_conventions s') (assets_hierarchy s')"
  from h get_assets_put[OF ga] have g: "get_assets (assets_hierarchy s') (Some p) (Some c) = Inr (JList ?ys)"
    by simp
  have "config_json s' = Some (JDict ?w)" using c by (simp add: document_def)
  moreover have "map_of ?w ''naming_conventions'' = Some (naming_conventions s)"
    using nc by (simp add: update_conv')
  moreover have "\<forall>k. k \<noteq> ''naming_conventions'' \<longrightarrow> map_of ?w k = map_of (assets_hierarchy s') k"
    by (simp add: update_conv')
  moreover have "p \<noteq> ''naming_conventions'' \<longrightarrow> get_assets ?w (Some p) (Some c) = Inr (JList ?ys)"
    using g by (simp add: get_assets_written)
  ultimately show ?thesis using r h g l w1 w2 t by blast
qed

text \<open>
  Both renames at a concrete state with all three renames on disk failing: the project and
  the asset are renamed in memory and in the file, and each failure is a warning before the
  message of success.
\<close>

lemma rename_failure_examples:
  "rename_fails False [] ''Show A'' ''Show B'' (root_dir state_on_disk)"
  "case rename_project state_on_disk (Some ''Show A'') (''Show B '', True) False of
     Inl e \<Rightarrow> False
   | Inr (m, s') \<Rightarrow>
       m = [Warn_rename_project_folder, Info_project_renamed]
       \<and> projects s' = [Master_Assets, ''Show B'']
       \<and> map_of (assets_hierarchy s') ''Show B'' = map_of (assets_hierarchy state_on_disk) ''Show A''
       \<and> (case config_json s' of
            None \<Rightarrow> False
          | Some written \<Rightarrow>
              subscript written ''Show A'' = Inl KeyError
              \<and> (case map_of (assets_hierarchy state_on_disk) ''Show A'' of
                   None \<Rightarrow> False
                 | Some categories \<Rightarrow> subscript written ''Show B'' = Inr categories))"
  "rename_fails False [''Show A'', ''Textures'', ''T_RockDiffuse_D'']
     (hipnc ''T_RockDiffuse_D'') (hipnc ''T_Stone_D'') (root_dir state_on_disk)"
  "rename_fails False [''Show A'', ''Textures''] ''T_RockDiffuse_D'' ''T_Stone_D''
     (root_dir state_on_disk)"
  "case edit_asset_clicked no_format state_on_disk ''Rock Diffuse'' (''Stone'', True)
          (''Diffuse'', True) False False of
     Inl e \<Rightarrow> False
   | Inr (m, s') \<Rightarrow>
       m = [Warn_rename_file, Warn_rename_asset_folder, Info_asset_renamed]
       \<and> get_assets (assets_hierarchy s') (Some ''Show A'') (Some ''Textures'')
            = Inr (JList [new_asset ''Stone'' ''T_Stone_D''])
       \<and> (case config_json s' of
            Some (JDict written) \<Rightarrow>
              get_assets written (Some ''Show A'') (Some ''Textures'')
                = Inr (JList [new_asset ''Stone'' ''T_Stone_D''])
          | _ \<Rightarrow> False)"
  by code_simp+

text \<open>
  C9: when a rename on disk fails, the update of the document is still applied and
  persisted. The update is applied in memory and the file is written, but not every
  update reaches the file: \<^verbatim>\<open>save_assets_to_json\<close> stores the conventions under the key
  \<^verbatim>\<open>naming_conventions\<close> of the same dict that holds the projects (lines 361-362), and
  \<^verbatim>\<open>rename_project\<close> refuses the reserved name \<^verbatim>\<open>Master Assets\<close> only (line 306). A project
  renamed to \<^verbatim>\<open>naming_conventions\<close>, its folder rename failing, is renamed in memory with the
  warning and the message of success; the file written holds neither the old nor the new
  project, and the next start loads a document without it.
\<close>

theorem rename_to_conventions_key_not_persisted:
  "rename_fails False [] ''Show A'' ''naming_conventions'' (root_dir state_on_disk)
   \<and> (case rename_project state_on_disk (Some ''Show A'') (''naming_conventions'', True) False of
        Inl e \<Rightarrow> False
      | Inr (m, s') \<Rightarrow>
          m = [Warn_rename_project_folder, Info_project_renamed]
          \<and> projects s' = [Master_Assets, ''naming_conventions'']
          \<and> map_of (assets_hierarchy s') ''naming_conventions''
               = map_of (assets_hierarchy state_on_disk) ''Show A''
          \<and> map_of (assets_hierarchy s') ''naming_conventions'' \<noteq> None
          \<and> (case config_json s' of
               None \<Rightarrow> False
             | Some written \<Rightarrow>
                 written = JDict [(Master_Assets, master_categories),
                                  (''naming_conventions'', conventions_example)]
                 \<and> subscript written ''naming_conventions'' = Inr (naming_conventions state_on_disk)
                 \<and> subscript written ''Show A'' = Inl KeyError
                 \<and> projects (snd (init (Some written) (root_dir s'))) = [Master_Assets]))"
  by code_simp

section \<open>Synchronisation of the directory tree\<close>

lemma kind_at_Nil [simp]: "kind_at [] d = Some IsDir"
  by (simp add: kind_at_def)

lemma kind_at_Cons:
  "kind_at (n # q) d =
     (case map_of d n of
        None \<Rightarrow> None
      | Some File \<Rightarrow> (if q = [] then Some IsFile else None)
      | Some (Dir sub) \<Rightarrow> kind_at q sub)"
  by (cases q) (auto simp: kind_at_def split: option.splits fsnode.splits)

lemma kind_at_empty [simp]: "kind_at (n # q) [] = None"
  by (simp add: kind_at_Cons)

lemma is_prefix_Nil2 [simp]: "is_prefix q [] = (q = [])"
  by (cases q) simp_all






lemma is_prefix_refl [simp]: "is_prefix p p"
  by (induction p) simp_all

lemma kind_at_prefix:
  "kind_at p d = Some IsDir \<or> kind_at p d = Some IsFile \<Longrightarrow> is_prefix q p \<Longrightarrow> q \<noteq> p
   \<Longrightarrow> kind_at q d = Some IsDir"
proof (induction q p arbitrary: d rule: is_prefix.induct)
  case (1 p)
  then show ?case by simp
next
  case (2 a q)
  then show ?case by simp
next
  case (3 a q b p)
  then show ?case
    by (auto simp: kind_at_Cons split: option.splits fsnode.splits if_splits)
qed


subsection \<open>Well-formed trees stay well-formed\<close>


lemma wf_fs_Nil [simp]: "wf_fs []"
  by (simp add: wf_fs_def)

lemma wf_fs_entry: "wf_fs d \<Longrightarrow> (n, Dir sub) \<in> set d \<Longrightarrow> wf_fs sub"
proof -
  assume "wf_fs d" and "(n, Dir sub) \<in> set d"
  then have "wf_node (snd (n, Dir sub))" unfolding wf_fs_def by (simp del: snd_conv)
  then show ?thesis by (simp add: wf_fs_def)
qed



lemma cleanup_entries_prune:
  "cleanup_entries dbs es = (None, es') \<Longrightarrow> es' = filter (\<lambda>e. \<not> stale dbs (fst e)) es"
proof (induction es arbitrary: es')
  case Nil
  then show ?case by simp
next
  case (Cons e es)
  obtain n node where e: "e = (n, node)" by (cases e)
  show ?case
  proof (cases "stale dbs n")
    case True
    with Cons.prems e have "node = File" and "cleanup_entries dbs es = (None, es')"
      by (auto simp: stale_def split: fsnode.splits)
    with Cons.IH True e show ?thesis by simp
  next
    case False
    with Cons.prems e obtain rest where "cleanup_entries dbs es = (None, rest)" "es' = e # rest"
      by (auto simp: stale_def split: prod.splits)
    with Cons.IH False e show ?thesis by simp
  qed
qed

lemma map_filter_Cons:
  "List.map_filter f (x # xs) = (case f x of None \<Rightarrow> List.map_filter f xs | Some y \<Rightarrow> y # List.map_filter f xs)"
  by (simp add: List.map_filter_def split: option.splits)

lemma cleanup_categories_prune:
  "cleanup_categories cats ps = (None, ps') \<Longrightarrow> ps' = List.map_filter (prune_category cats) ps"
proof (induction ps arbitrary: ps')
  case Nil
  then show ?case by (simp add: List.map_filter_def)
next
  case (Cons e ps)
  obtain c node where e: "e = (c, node)" by (cases e)
  show ?case
  proof (cases node)
    case File
    with Cons.prems e obtain rest where "cleanup_categories cats ps = (None, rest)" "ps' = e # rest"
      by (auto split: prod.splits)
    with Cons.IH File e show ?thesis by (simp add: map_filter_Cons prune_category_def)
  next
    case (Dir sub)
    show ?thesis
    proof (cases "name_in c cats")
      case (Inl x)
      with Cons.prems e Dir show ?thesis by simp
    next
      case (Inr known)
      show ?thesis
      proof (cases known)
        case False
        with Inr Cons.prems e Dir have "cleanup_categories cats ps = (None, ps')" by simp
        with Cons.IH False Inr e Dir show ?thesis
          by (simp add: map_filter_Cons prune_category_def known_category_def)
      next
        case True
        with Inr Cons.prems e Dir obtain cat_val dbs sub' rest where
          cv: "subscript cats c = Inr cat_val" and dbs: "category_db_names cat_val = Inr dbs"
          and sub': "cleanup_entries dbs sub = (None, sub')"
          and rest: "cleanup_categories cats ps = (None, rest)" and ps': "ps' = (c, Dir sub') # rest"
          by (auto split: sum.splits prod.splits option.splits)
        from cleanup_entries_prune[OF sub'] cv dbs have "sub' = prune_entries cats c sub"
          by (simp add: prune_entries_def stale_in_def)
        with Cons.IH[OF rest] True Inr e Dir ps' show ?thesis
          by (simp add: map_filter_Cons prune_category_def known_category_def)
      qed
    qed
  qed
qed

lemma cleanup_filesystem_prune:
  "cleanup_filesystem h d = (None, d') \<Longrightarrow> d' = prune h d"
proof (induction d arbitrary: d')
  case Nil
  then show ?case by (simp add: prune_def List.map_filter_def)
next
  case (Cons e d)
  obtain p node where e: "e = (p, node)" by (cases e)
  show ?case
  proof (cases node)
    case File
    with Cons.prems e obtain rest where "cleanup_filesystem h d = (None, rest)" "d' = e # rest"
      by (auto split: prod.splits)
    with Cons.IH File e show ?thesis by (simp add: prune_def map_filter_Cons prune_project_def)
  next
    case (Dir sub)
    show ?thesis
    proof (cases "map_of h p")
      case None
      with Cons.prems e Dir have "cleanup_filesystem h d = (None, d')" by simp
      with Cons.IH None e Dir show ?thesis
        by (simp add: prune_def map_filter_Cons prune_project_def)
    next
      case (Some cats)
      with Cons.prems e Dir obtain sub' rest where
        sub': "cleanup_categories cats sub = (None, sub')"
        and rest: "cleanup_filesystem h d = (None, rest)" and d': "d' = (p, Dir sub') # rest"
        by (auto split: prod.splits option.splits)
      from cleanup_categories_prune[OF sub'] Cons.IH[OF rest] Some e Dir d' show ?thesis
        by (simp add: prune_def map_filter_Cons prune_project_def)
    qed
  qed
qed

lemma map_of_map_filter:
  assumes "\<And>e y. f e = Some y \<Longrightarrow> fst y = fst e" and "distinct (map fst d)"
  shows "map_of (List.map_filter f d) n
           = (case map_of d n of None \<Rightarrow> None | Some v \<Rightarrow> map_option snd (f (n, v)))"
  using assms(2)
proof (induction d)
  case Nil
  then show ?case by (simp add: List.map_filter_def)
next
  case (Cons e d)
  obtain k v where e: "e = (k, v)" by (cases e)
  from Cons e have IH: "map_of (List.map_filter f d) n
           = (case map_of d n of None \<Rightarrow> None | Some v \<Rightarrow> map_option snd (f (n, v)))"
    and nk: "k \<notin> fst ` set d" by auto
  show ?case
  proof (cases "f (k, v)")
    case None
    with IH nk e show ?thesis
      by (auto simp: map_filter_Cons map_of_eq_None_iff[symmetric] split: option.splits)
  next
    case (Some y)
    with assms(1)[of "(k, v)" y] obtain w where y: "y = (k, w)" by (cases y) simp
    with Some IH nk e show ?thesis
      by (auto simp: map_filter_Cons map_of_eq_None_iff[symmetric] split: option.splits)
  qed
qed

lemma map_of_filter_distinct:
  "distinct (map fst d) \<Longrightarrow>
   map_of (filter P d) n = (case map_of d n of None \<Rightarrow> None | Some v \<Rightarrow> if P (n, v) then Some v else None)"
proof (induction d)
  case Nil
  then show ?case by simp
next
  case (Cons e d)
  obtain k v where e: "e = (k, v)" by (cases e)
  with Cons show ?case
    by (auto simp: map_of_eq_None_iff[symmetric] split: option.splits)
qed

lemma prune_project_key: "prune_project h e = Some y \<Longrightarrow> fst y = fst e"
  by (auto simp: prune_project_def split: fsnode.splits option.splits)

lemma prune_category_key: "prune_category cats e = Some y \<Longrightarrow> fst y = fst e"
  by (auto simp: prune_category_def split: fsnode.splits if_splits)

lemma prune_entries_kind:
  assumes "distinct (map fst es)"
  shows "kind_at (name # rest) (prune_entries cats c es)
           = filter_kind (\<not> stale_in cats c name) (kind_at (name # rest) es)"
  using assms
  by (simp add: kind_at_Cons prune_entries_def map_of_filter_distinct filter_kind_def
      split: option.splits)

lemma prune_categories_kind:
  assumes "wf_fs sub"
  shows "kind_at q (List.map_filter (prune_category cats) sub)
           = (case kind_at q sub of None \<Rightarrow> None
              | Some k \<Rightarrow> filter_kind (survives_in cats q k) (Some k))"
proof (cases q)
  case Nil
  then show ?thesis by (simp add: survives_in_def filter_kind_def)
next
  case (Cons c rest)
  from assms have d: "distinct (map fst sub)" by (simp add: wf_fs_def)
  note m = map_of_map_filter[of "prune_category cats" sub c, OF prune_category_key d]
  show ?thesis
  proof (cases "map_of sub c")
    case None
    with m Cons show ?thesis by (simp add: kind_at_Cons)
  next
    case (Some node)
    show ?thesis
    proof (cases node)
      case File
      with Some m Cons show ?thesis
        by (cases rest) (simp_all add: kind_at_Cons prune_category_def survives_in_def filter_kind_def)
    next
      case (Dir es)
      from Some Dir have "(c, Dir es) \<in> set sub" by (simp add: map_of_SomeD)
      with assms have "wf_fs es" by (rule wf_fs_entry)
      then have de: "distinct (map fst es)" by (simp add: wf_fs_def)
      show ?thesis
      proof (cases rest)
        case Nil
        with Some Dir m Cons show ?thesis
          by (simp add: kind_at_Cons prune_category_def survives_in_def filter_kind_def)
      next
        case (Cons name more)
        with Some Dir m \<open>q = c # rest\<close> prune_entries_kind[OF de, of name more cats c] show ?thesis
          by (auto simp: kind_at_Cons[of c] prune_category_def survives_in_def filter_kind_def
              split: option.splits)
      qed
    qed
  qed
qed

lemma prune_kind:
  assumes "wf_fs d"
  shows "kind_at q (prune h d)
           = (case kind_at q d of None \<Rightarrow> None | Some k \<Rightarrow> filter_kind (survives h q k) (Some k))"
proof (cases q)
  case Nil
  then show ?thesis by (simp add: survives_def filter_kind_def)
next
  case (Cons p rest)
  from assms have dd: "distinct (map fst d)" by (simp add: wf_fs_def)
  note m = map_of_map_filter[of "prune_project h" d p, OF prune_project_key dd]
  show ?thesis
  proof (cases "map_of d p")
    case None
    with m Cons show ?thesis by (simp add: kind_at_Cons prune_def)
  next
    case (Some node)
    show ?thesis
    proof (cases node)
      case File
      with Some m Cons show ?thesis
        by (cases rest) (simp_all add: kind_at_Cons prune_def prune_project_def survives_def filter_kind_def)
    next
      case (Dir sub)
      from Some Dir have "(p, Dir sub) \<in> set d" by (simp add: map_of_SomeD)
      with assms have w: "wf_fs sub" by (rule wf_fs_entry)
      show ?thesis
      proof (cases "map_of h p")
        case None
        with Some Dir m Cons show ?thesis
          by (cases rest)
             (auto simp: kind_at_Cons[of p] prune_def prune_project_def survives_def filter_kind_def
              split: option.splits)
      next
        case (Some cats)
        with \<open>map_of d p = Some node\<close> Dir m Cons prune_categories_kind[OF w, of rest cats]
        show ?thesis
          by (cases rest)
             (auto simp: kind_at_Cons[of p] prune_def prune_project_def survives_def filter_kind_def
                survives_in_def split: option.splits)
      qed
    qed
  qed
qed


















subsection \<open>The steps of the hidden-folder pass\<close>












subsection \<open>The tree after a completed synchronisation\<close>





subsection \<open>When the orphan pass raises nothing\<close>







subsection \<open>When making directories raises nothing\<close>





subsection \<open>What the second synchronisation does\<close>





subsection \<open>The orphan pass\<close>

text \<open>
  C8: the orphan pass is to delete every directory directly under the root that is no
  project of the document. The code stops at the first entry of a known category that has
  the extension \<^verbatim>\<open>.txt\<close>, whose base name is no identifier and that is a directory: the
  folder of the asset \<^verbatim>\<open>notes.txt\<close> is one. The pass ends with an exception there
  and the directory \<^verbatim>\<open>Zold\<close>, listed later and no project of the document, is
  still there. The situation is reached through the user interface: two projects are added,
  an asset named \<^verbatim>\<open>notes.txt\<close> is created in the first and the second is deleted;
  the deletion is reported as not saved and the directory of the deleted project stays.
\<close>

theorem orphan_pass_stops_at_directory:
  "cleanup_filesystem doc_notes tree_notes = (Some OSError, tree_notes)
   \<and> \<not> has_key doc_notes ''Zold''
   \<and> path_exists [''Zold''] tree_notes
   \<and> (case run no_format state_initial actions_notes of
        Inl e \<Rightarrow> False
      | Inr s \<Rightarrow>
          (case delete_project s (Some ''Zold'') True of
             Inl e \<Rightarrow> False
           | Inr (m, s') \<Rightarrow>
               m = [Warn_could_not_save, Info_project_deleted]
               \<and> \<not> has_key (assets_hierarchy s') ''Zold''
               \<and> path_exists [''Zold''] (root_dir s')))"
  by code_simp

text \<open>
  When the pass is not ended by an exception it does what C8 says: what is left of a tree
  with no two entries of one name in a directory is every file directly under the root or
  under a project, every directory under the root that is a project, every directory under a
  project that is a category of it, and of the entries of a category everything but the files
  with the extension \<^verbatim>\<open>.txt\<close> whose base name is no identifier; a folder of an
  asset, known or not, stays with all that is in it.
\<close>

lemma cleanup_completed:
  assumes "wf_fs d" and "cleanup_filesystem h d = (None, d')"
  shows "kind_at q d' = (case kind_at q d of None \<Rightarrow> None
                         | Some k \<Rightarrow> filter_kind (survives h q k) (Some k))"
  using prune_kind[OF assms(1), of q h] cleanup_filesystem_prune[OF assms(2)] by simp

text \<open>
  The second synchronisation can end with an exception although the first did not: the
  first creates the folder of the asset \<^verbatim>\<open>notes.txt\<close>, and the orphan pass of
  the second passes that folder to \<^verbatim>\<open>os.remove\<close>.
\<close>

lemma second_sync_raises:
  "fst (sync_filesystem_with_json doc_notes []) = None"
  "fst (sync_filesystem_with_json doc_notes (snd (sync_filesystem_with_json doc_notes [])))
   = Some OSError"
  by code_simp+

end
